theory Spec2Isabelle
  imports Complex_Main
begin

section \<open>JavaScript values used by the modelled code\<close>

text \<open>
  A property read in JavaScript yields \<open>undefined\<close> (field absent), \<open>null\<close>, or a value.
  Numbers are modelled as reals; \<open>NaN\<close> behaves like \<open>undefined\<close> in every comparison
  and truthiness test below, so it is represented by \<open>Undefined\<close>.
\<close>

datatype 'a js = Undefined | Null | Val 'a

type_synonym jsnum = "real js"
type_synonym jsstr = "string js"

text \<open>\<open>ToNumber\<close>: \<open>undefined\<close> becomes \<open>NaN\<close> (no number), \<open>null\<close> becomes 0.\<close>

fun toNumber :: "jsnum \<Rightarrow> real option" where
  "toNumber Undefined = None"
| "toNumber Null = Some 0"
| "toNumber (Val x) = Some x"

text \<open>Relational operators against a numeric constant; any comparison with \<open>NaN\<close> is false.\<close>

definition js_gt :: "jsnum \<Rightarrow> real \<Rightarrow> bool" where
  "js_gt a c = (case toNumber a of None \<Rightarrow> False | Some x \<Rightarrow> x > c)"

definition js_ge :: "jsnum \<Rightarrow> real \<Rightarrow> bool" where
  "js_ge a c = (case toNumber a of None \<Rightarrow> False | Some x \<Rightarrow> x \<ge> c)"

definition js_lt :: "jsnum \<Rightarrow> real \<Rightarrow> bool" where
  "js_lt a c = (case toNumber a of None \<Rightarrow> False | Some x \<Rightarrow> x < c)"

definition js_le :: "jsnum \<Rightarrow> real \<Rightarrow> bool" where
  "js_le a c = (case toNumber a of None \<Rightarrow> False | Some x \<Rightarrow> x \<le> c)"

text \<open>Truthiness: \<open>undefined\<close>, \<open>null\<close>, \<open>0\<close> and the empty string are falsy.\<close>

fun truthyNum :: "jsnum \<Rightarrow> bool" where
  "truthyNum (Val x) = (x \<noteq> 0)"
| "truthyNum _ = False"

fun truthyStr :: "jsstr \<Rightarrow> bool" where
  "truthyStr (Val s) = (s \<noteq> [])"
| "truthyStr _ = False"

text \<open>\<open>a || b\<close> on numbers, and \<open>s || ''\<close> on strings.\<close>

definition orNum :: "jsnum \<Rightarrow> jsnum \<Rightarrow> jsnum" where
  "orNum a b = (if truthyNum a then a else b)"

fun orEmpty :: "jsstr \<Rightarrow> string" where
  "orEmpty (Val s) = s"
| "orEmpty _ = []"

text \<open>\<open>String.prototype.toLowerCase\<close> on ASCII letters; other bytes are kept.\<close>

definition toLowerChar :: "char \<Rightarrow> char" where
  "toLowerChar c =
     (let n = (of_char c :: nat) in if 65 \<le> n \<and> n \<le> 90 then char_of (n + 32) else c)"

definition toLowerCase :: "string \<Rightarrow> string" where
  "toLowerCase s = map toLowerChar s"

text \<open>\<open>String.prototype.includes\<close>: substring search.\<close>

definition startsWith :: "string \<Rightarrow> string \<Rightarrow> bool" where
  "startsWith s t = (take (length t) s = t)"

fun str_includes :: "string \<Rightarrow> string \<Rightarrow> bool" where
  "str_includes [] t = (t = [])"
| "str_includes (c # cs) t = (startsWith (c # cs) t \<or> str_includes cs t)"


section \<open>TrendScout.scoreProduct\<close>

text \<open>The fields of a discovered product that \<open>scoreProduct\<close> reads or writes.\<close>

record tproduct =
  name :: jsstr
  orders :: jsnum
  costAud :: jsnum
  costUsd :: jsnum
  category :: jsstr
  image :: jsstr
  trendScore :: jsnum

definition highDemandCategories :: "string list" where
  "highDemandCategories =
     [''electronics'', ''home'', ''beauty'', ''fashion'', ''sports'', ''toys'',
      ''kitchen'', ''garden'', ''pet'']"

text \<open>Sales velocity tier (the \<open>if / else if\<close> chain on \<open>product.orders\<close>).\<close>

definition ordersBonus :: "jsnum \<Rightarrow> nat" where
  "ordersBonus n =
     (if js_gt n 10000 then 25
      else if js_gt n 5000 then 20
      else if js_gt n 1000 then 15
      else if js_gt n 500 then 10
      else if js_gt n 100 then 5
      else 0)"

text \<open>Price range tier on \<open>cost = product.costAud || product.costUsd || 0\<close>.\<close>

definition costOf :: "'a tproduct_scheme \<Rightarrow> jsnum" where
  "costOf p = orNum (orNum (costAud p) (costUsd p)) (Val 0)"

definition costBonus :: "jsnum \<Rightarrow> nat" where
  "costBonus c =
     (if js_ge c 5 \<and> js_le c 50 then 20
      else if js_gt c 50 \<and> js_le c 100 then 15
      else if js_gt c 100 \<and> js_le c 200 then 10
      else if js_gt c 0 \<and> js_lt c 5 then 5
      else 0)"

definition categoryBonus :: "jsstr \<Rightarrow> nat" where
  "categoryBonus c =
     (let catLower = toLowerCase (orEmpty c)
      in if list_ex (\<lambda>k. str_includes catLower k) highDemandCategories then 10 else 0)"

definition imageBonus :: "jsstr \<Rightarrow> nat" where
  "imageBonus i = (if truthyStr i then 5 else 0)"

definition nameBonus :: "jsstr \<Rightarrow> nat" where
  "nameBonus n = (if truthyStr n \<and> length (orEmpty n) > 10 then 5 else 0)"

text \<open>The running \<open>score\<close> variable just before \<open>Math.min(score, 100)\<close>.\<close>

definition rawScore :: "'a tproduct_scheme \<Rightarrow> nat" where
  "rawScore p =
     0 + 15 + ordersBonus (orders p) + costBonus (costOf p) + categoryBonus (category p)
       + imageBonus (image p) + nameBonus (name p)"

text \<open>
  \<open>scoreProduct\<close> stores \<open>Math.min(score, 100)\<close> in \<open>product.trendScore\<close> and returns the
  product: the score is handed back inside the product it was computed for.
\<close>

definition scoreProduct :: "'a tproduct_scheme \<Rightarrow> 'a tproduct_scheme" where
  "scoreProduct p = p\<lparr>trendScore := Val (real (min (rawScore p) 100))\<rparr>"


subsection \<open>Bounds of the individual bonuses\<close>

lemma ordersBonus_le: "ordersBonus n \<le> 25"
  unfolding ordersBonus_def by simp

lemma costBonus_le: "costBonus c \<le> 20"
  unfolding costBonus_def by simp

lemma categoryBonus_le: "categoryBonus c \<le> 10"
  unfolding categoryBonus_def Let_def by simp

lemma imageBonus_le: "imageBonus i \<le> 5"
  unfolding imageBonus_def by simp

lemma nameBonus_le: "nameBonus n \<le> 5"
  unfolding nameBonus_def by simp

lemma rawScore_bounds: "15 \<le> rawScore p \<and> rawScore p \<le> 80"
  using ordersBonus_le [of "orders p"] costBonus_le [of "costOf p"]
    categoryBonus_le [of "category p"] imageBonus_le [of "image p"] nameBonus_le [of "name p"]
  unfolding rawScore_def by linarith

lemma rawScore_ignores_trendScore: "rawScore (p\<lparr>trendScore := t\<rparr>) = rawScore p"
  unfolding rawScore_def costOf_def by simp

subsection \<open>Example product\<close>

text \<open>A product as the Brave-search scraper builds it: no cost, no orders, no image, and a
  preset \<open>trendScore\<close> of 60.\<close>

definition braveProduct :: tproduct where
  "braveProduct = \<lparr>name = Val ''Portable blender'', orders = Val 0, costAud = Val 0,
     costUsd = Val 0, category = Val ''home'', image = Val [], trendScore = Val 60\<rparr>"

lemma categoryBonus_home: "categoryBonus (Val ''home'') = 10"
  by (simp add: categoryBonus_def highDemandCategories_def toLowerCase_def toLowerChar_def
      startsWith_def Let_def)

text \<open>
  C8 as stated fails in one point: \<open>scoreProduct\<close> is not free of side effects. It writes
  the score into the product it is given: the Brave-search product enters with
  \<open>trendScore\<close> 60 and leaves, as the same returned object, with \<open>trendScore\<close> 30.
\<close>

theorem scoreProduct_overwrites_trendScore:
  "trendScore braveProduct = Val 60 \<and> trendScore (scoreProduct braveProduct) = Val 30
   \<and> scoreProduct braveProduct \<noteq> braveProduct"
proof -
  have a: "trendScore braveProduct = Val 60" by (simp add: braveProduct_def)
  have r: "rawScore braveProduct = 30"
    by (simp add: rawScore_def braveProduct_def categoryBonus_home ordersBonus_def costBonus_def
        costOf_def orNum_def imageBonus_def nameBonus_def js_gt_def js_ge_def js_le_def js_lt_def)
  have b: "trendScore (scoreProduct braveProduct) = Val 30"
    by (simp add: scoreProduct_def r)
  from a b have "scoreProduct braveProduct \<noteq> braveProduct" by auto
  with a b show ?thesis by blast
qed

text \<open>
  C8, amended. The score is a function of the six input fields only (it does not depend
  on the previous \<open>trendScore\<close>, so identical input gives an identical score and scoring
  again changes nothing), it lies between 0 and 100, each bonus stays within its tier,
  and the one effect of \<open>scoreProduct\<close> is the write of the score into the \<open>trendScore\<close>
  field of the product, which it returns.
\<close>

theorem scoreProduct_deterministic_bounded:
  "(\<exists>s. trendScore (scoreProduct p) = Val s \<and> 0 \<le> s \<and> s \<le> 100
        \<and> s = real (min (15 + ordersBonus (orders p) + costBonus (costOf p)
                 + categoryBonus (category p) + imageBonus (image p) + nameBonus (name p)) 100))
   \<and> ordersBonus (orders p) \<le> 25 \<and> costBonus (costOf p) \<le> 20
   \<and> categoryBonus (category p) \<le> 10 \<and> imageBonus (image p) \<le> 5 \<and> nameBonus (name p) \<le> 5
   \<and> scoreProduct (p\<lparr>trendScore := t\<rparr>) = scoreProduct p
   \<and> scoreProduct (scoreProduct p) = scoreProduct p
   \<and> (scoreProduct p)\<lparr>trendScore := trendScore p\<rparr> = p"
proof -
  have val: "trendScore (scoreProduct p) = Val (real (min (rawScore p) 100))"
    unfolding scoreProduct_def by simp
  have raw: "rawScore p = 15 + ordersBonus (orders p) + costBonus (costOf p)
                 + categoryBonus (category p) + imageBonus (image p) + nameBonus (name p)"
    unfolding rawScore_def by simp
  have rng: "0 \<le> real (min (rawScore p) 100) \<and> real (min (rawScore p) 100) \<le> 100"
    by simp
  have indep: "scoreProduct (p\<lparr>trendScore := t\<rparr>) = scoreProduct p"
    unfolding scoreProduct_def by (simp add: rawScore_ignores_trendScore)
  have idem: "scoreProduct (scoreProduct p) = scoreProduct p"
    unfolding scoreProduct_def by (simp add: rawScore_ignores_trendScore)
  have frame: "(scoreProduct p)\<lparr>trendScore := trendScore p\<rparr> = p"
    unfolding scoreProduct_def by simp
  from val raw rng indep idem frame
    ordersBonus_le [of "orders p"] costBonus_le [of "costOf p"]
    categoryBonus_le [of "category p"] imageBonus_le [of "image p"] nameBonus_le [of "name p"]
  show ?thesis by metis
qed


section \<open>Catalog items (the Product collection)\<close>

text \<open>
  The fields of a stored Product that the pipeline reads or writes. A document is
  identified by its position in the collection (its \<open>_id\<close>); \<open>pipeline.x\<close> is written
  \<open>pl_x\<close>. Dates are not modelled.
\<close>

record product =
  title :: string
  p_costUsd :: jsnum
  sellingPriceAud :: jsnum
  comparePriceAud :: jsnum
  profitMarginPercent :: jsnum
  supplier_url :: jsstr
  p_featuredImage :: jsstr
  p_firstImageUrl :: jsstr
  isActive :: bool
  pl_researchScore :: jsnum
  pl_approved :: bool
  pl_rejectionReason :: string
  pl_runId :: string
  woocommerceProductId :: jsstr
  status :: jsstr
  shopifyStatus :: jsstr

type_synonym store = "product list"

text \<open>\<open>Model.find(query).limit(n)\<close>: the matching documents with their ids, in collection order.\<close>

definition findDocs :: "('a \<Rightarrow> bool) \<Rightarrow> 'a list \<Rightarrow> (nat \<times> 'a) list" where
  "findDocs q st = filter (\<lambda>(i, d). q d) (zip [0 ..< length st] st)"

text \<open>\<open>run.config?.maxProducts || d\<close>.\<close>

definition limitOr :: "nat option \<Rightarrow> nat \<Rightarrow> nat" where
  "limitOr cfg d = (case cfg of None \<Rightarrow> d | Some n \<Rightarrow> if n = 0 then d else n)"


section \<open>Stage 4: validation and auto-approval\<close>

text \<open>
  The candidate query of \<open>executePipeline\<close>:
  \<open>{'pipeline.approved': false, 'pipeline.rejectionReason': '', isActive: true, costUsd: {$gt: 0}}\<close>.
  \<open>$gt\<close> only matches numbers.
\<close>

definition candidateQuery :: "product \<Rightarrow> bool" where
  "candidateQuery p =
     (\<not> pl_approved p \<and> pl_rejectionReason p = [] \<and> isActive p
      \<and> (case p_costUsd p of Val c \<Rightarrow> c > 0 | _ \<Rightarrow> False))"

text \<open>
  What one iteration of the validation loop decides: a rejection (with the document to
  save, when the branch saves one) or an approval (document to save).
\<close>

datatype verdict = Reject "product option" | Approve product

text \<open>
  The loop body. \<open>toFixed1\<close> stands for \<open>Number.prototype.toFixed(1)\<close>. A \<open>null\<close> margin
  compares as 0, enters the low-margin branch and makes \<open>null.toFixed\<close> throw a TypeError.
\<close>

definition validateCandidate :: "(real \<Rightarrow> string) \<Rightarrow> string \<Rightarrow> product \<Rightarrow> string + verdict" where
  "validateCandidate toFixed1 rid p =
     (if js_le (p_costUsd p) 0 then
        Inr (Reject (Some (p\<lparr>pl_rejectionReason := ''No cost data''\<rparr>)))
      else if js_lt (profitMarginPercent p) 20 then
        (case profitMarginPercent p of
           Val m \<Rightarrow> Inr (Reject (Some (p\<lparr>pl_rejectionReason := ''Low margin: '' @ toFixed1 m @ ''%''\<rparr>)))
         | _ \<Rightarrow> Inl ''TypeError: Cannot read properties of null (reading toFixed)'')
      else if \<not> truthyStr (supplier_url p) then
        Inr (Reject (Some (p\<lparr>pl_rejectionReason := ''No supplier found''\<rparr>)))
      else if js_ge (pl_researchScore p) 30 \<or> js_ge (profitMarginPercent p) 35 then
        Inr (Approve (p\<lparr>pl_approved := True, pl_runId := rid\<rparr>))
      else Inr (Reject None))"

text \<open>
  The \<open>for (const product of candidates)\<close> loop over the products store. The state is the
  store with the counters \<open>validated\<close> and \<open>rejected\<close>; \<open>saveFails i\<close> is the error with
  which \<open>product.save()\<close> of document \<open>i\<close> throws, if it does. Nothing in the loop is
  caught: the first throw ends it (result \<open>Some error\<close>).
\<close>

fun validationLoop ::
  "(real \<Rightarrow> string) \<Rightarrow> (nat \<Rightarrow> string option) \<Rightarrow> string \<Rightarrow> (nat \<times> product) list
     \<Rightarrow> store \<times> nat \<times> nat \<Rightarrow> string option \<times> store \<times> nat \<times> nat" where
  "validationLoop toFixed1 saveFails rid [] acc = (None, acc)"
| "validationLoop toFixed1 saveFails rid ((i, p) # cs) (st, validated, rejected) =
     (case validateCandidate toFixed1 rid p of
        Inl e \<Rightarrow> (Some e, st, validated, rejected)
      | Inr (Reject None) \<Rightarrow>
          validationLoop toFixed1 saveFails rid cs (st, validated, rejected + 1)
      | Inr (Reject (Some p')) \<Rightarrow>
          (case saveFails i of
             Some e \<Rightarrow> (Some e, st, validated, rejected)
           | None \<Rightarrow> validationLoop toFixed1 saveFails rid cs (st[i := p'], validated, rejected + 1))
      | Inr (Approve p') \<Rightarrow>
          (case saveFails i of
             Some e \<Rightarrow> (Some e, st, validated, rejected)
           | None \<Rightarrow> validationLoop toFixed1 saveFails rid cs (st[i := p'], validated + 1, rejected)))"

text \<open>Candidate selection followed by the loop.\<close>

definition validationStage ::
  "(real \<Rightarrow> string) \<Rightarrow> (nat \<Rightarrow> string option) \<Rightarrow> string \<Rightarrow> nat option \<Rightarrow> store
     \<Rightarrow> string option \<times> store \<times> nat \<times> nat" where
  "validationStage toFixed1 saveFails rid cfg st =
     validationLoop toFixed1 saveFails rid
       (take (limitOr cfg 50) (findDocs candidateQuery st)) (st, 0, 0)"


subsection \<open>Example items\<close>

text \<open>An active, not yet approved or rejected item with cost 0, a high margin and a high score.\<close>

definition costZeroItem :: product where
  "costZeroItem = \<lparr>title = ''Desk lamp'', p_costUsd = Val 0, sellingPriceAud = Val 30,
     comparePriceAud = Null, profitMarginPercent = Val 50, supplier_url = Val ''https://s.example/1'',
     p_featuredImage = Val [], p_firstImageUrl = Undefined, isActive = True, pl_researchScore = Val 90, pl_approved = False, pl_rejectionReason = [],
     pl_runId = [], woocommerceProductId = Null, status = Undefined, shopifyStatus = Undefined\<rparr>"

text \<open>The spec's example: cost $8, margin 40%, score 10, supplier URL present.\<close>

definition marginItem :: product where
  "marginItem = \<lparr>title = ''Yoga mat'', p_costUsd = Val 8, sellingPriceAud = Val 25,
     comparePriceAud = Null, profitMarginPercent = Val 40, supplier_url = Val ''https://s.example/2'',
     p_featuredImage = Val [], p_firstImageUrl = Undefined, isActive = True, pl_researchScore = Val 10, pl_approved = False, pl_rejectionReason = [],
     pl_runId = [], woocommerceProductId = Null, status = Undefined, shopifyStatus = Undefined\<rparr>"

subsection \<open>The loop only touches the selected candidates\<close>

lemma findDocs_sound:
  "(i, p) \<in> set (findDocs q st) \<Longrightarrow> q p \<and> i < length st \<and> st ! i = p"
  unfolding findDocs_def
  by (auto simp: set_zip)

lemma validationLoop_frame:
  "validationLoop f sf rid cs (st, v, r) = (e, st', v', r') \<Longrightarrow>
     length st' = length st \<and> (\<forall>i. i \<notin> fst ` set cs \<longrightarrow> st' ! i = st ! i)"
proof (induction cs arbitrary: st v r)
  case Nil
  then show ?case by simp
next
  case (Cons c cs)
  obtain i p where c: "c = (i, p)" by (cases c)
  show ?case
    using Cons.prems Cons.IH unfolding c
    by (auto split: sum.splits verdict.splits option.splits simp: nth_list_update)
qed

lemma candidateQuery_needs_cost: "candidateQuery p \<Longrightarrow> js_gt (p_costUsd p) 0"
  unfolding candidateQuery_def js_gt_def by (cases "p_costUsd p") auto

lemma validationStage_frame:
  assumes "i < length st" and "\<not> candidateQuery (st ! i)"
  shows "fst (snd (validationStage f sf rid cfg st)) ! i = st ! i"
proof -
  let ?cs = "take (limitOr cfg 50) (findDocs candidateQuery st)"
  obtain e st' v' r' where res: "validationLoop f sf rid ?cs (st, 0, 0) = (e, st', v', r')"
    by (metis prod_cases4)
  have "i \<notin> fst ` set ?cs"
  proof
    assume "i \<in> fst ` set ?cs"
    then obtain p where "(i, p) \<in> set ?cs" by auto
    then have "(i, p) \<in> set (findDocs candidateQuery st)" by (meson in_set_takeD)
    then have "candidateQuery (st ! i)" using findDocs_sound by fastforce
    with assms(2) show False by simp
  qed
  with validationLoop_frame [OF res] have "st' ! i = st ! i" by simp
  with res show ?thesis unfolding validationStage_def by simp
qed

text \<open>
  C5 as stated fails. A catalog item that is active and neither approved nor rejected, with
  cost 0, goes through the validation stage untouched: the candidate query asks for
  \<open>costUsd > 0\<close>, so the item never reaches the loop, its rejection reason stays empty and
  the rejected counter stays 0. And an item whose cost is absent (\<open>undefined\<close>), handed
  to the loop body directly, passes the cost check (\<open>undefined <= 0\<close> is false) and is
  rejected for its margin instead.
\<close>

theorem cost_zero_item_not_rejected:
  "\<not> pl_approved costZeroItem \<and> pl_rejectionReason costZeroItem = [] \<and> isActive costZeroItem
   \<and> p_costUsd costZeroItem = Val 0
   \<and> validationStage (\<lambda>m. ''10.0'') (\<lambda>i. None) ''run-1'' None [costZeroItem]
       = (None, [costZeroItem], 0, 0)
   \<and> pl_rejectionReason costZeroItem \<noteq> ''No cost data''
   \<and> validateCandidate (\<lambda>m. ''10.0'') ''run-1''
         (costZeroItem\<lparr>p_costUsd := Undefined, profitMarginPercent := Val 10\<rparr>)
       = Inr (Reject (Some (costZeroItem\<lparr>p_costUsd := Undefined, profitMarginPercent := Val 10,
                 pl_rejectionReason := ''Low margin: 10.0%''\<rparr>)))"
  by (simp add: validationStage_def findDocs_def candidateQuery_def costZeroItem_def limitOr_def
      validateCandidate_def js_le_def js_lt_def)

text \<open>
  C5, amended. An item whose cost is absent, \<open>null\<close> or not positive is never selected by
  the validation stage and is left exactly as it was (neither approved nor rejected),
  whatever its margin and score; and the loop body's first check rejects any item whose
  cost compares \<open><= 0\<close> with reason exactly "No cost data", before margin, supplier or
  score are looked at.
\<close>

theorem validation_leaves_items_without_cost:
  "(\<forall>i < length st. \<not> js_gt (p_costUsd (st ! i)) 0 \<longrightarrow>
        fst (snd (validationStage toFixed1 saveFails rid cfg st)) ! i = st ! i)
   \<and> (js_le (p_costUsd p) 0 \<longrightarrow>
        validateCandidate toFixed1 rid p
          = Inr (Reject (Some (p\<lparr>pl_rejectionReason := ''No cost data''\<rparr>))))"
proof (intro conjI allI impI)
  fix i assume "i < length st" and "\<not> js_gt (p_costUsd (st ! i)) 0"
  then show "fst (snd (validationStage toFixed1 saveFails rid cfg st)) ! i = st ! i"
    using validationStage_frame candidateQuery_needs_cost by blast
next
  assume "js_le (p_costUsd p) 0"
  then show "validateCandidate toFixed1 rid p
      = Inr (Reject (Some (p\<lparr>pl_rejectionReason := ''No cost data''\<rparr>)))"
    unfolding validateCandidate_def by simp
qed

theorem validation_leaves_items_without_cost_witness:
  "0 < length [marginItem, costZeroItem] \<and> 1 < length [marginItem, costZeroItem]
   \<and> \<not> js_gt (p_costUsd ([marginItem, costZeroItem] ! 1)) 0
   \<and> fst (snd (validationStage (\<lambda>m. ''10.0'') (\<lambda>i. None) ''run-1'' None
         [marginItem, costZeroItem])) ! 1 = costZeroItem
   \<and> js_le (p_costUsd costZeroItem) 0
   \<and> validateCandidate (\<lambda>m. ''10.0'') ''run-1'' costZeroItem
        = Inr (Reject (Some (costZeroItem\<lparr>pl_rejectionReason := ''No cost data''\<rparr>)))"
proof -
  have a: "\<not> js_gt (p_costUsd ([marginItem, costZeroItem] ! 1)) 0"
    by (simp add: js_gt_def costZeroItem_def)
  have b: "js_le (p_costUsd costZeroItem) 0"
    by (simp add: js_le_def costZeroItem_def)
  have c: "(1::nat) < length [marginItem, costZeroItem]" by simp
  from validation_leaves_items_without_cost
    [of "[marginItem, costZeroItem]" "\<lambda>m. ''10.0''" "\<lambda>i. None" "''run-1''" None costZeroItem]
    a b c
  show ?thesis by simp
qed




section \<open>SocialPoster: the per-channel cooldown gate\<close>

datatype platform = Instagram | Facebook | Pinterest

text \<open>Outgoing calls, in the order they are made: AI copy generation, the channels' HTTP
  posts, and the report to the alerting bridge.\<close>

datatype netcall = AiCopy platform | IgContainer | IgPublish | FbPhotos | FbFeed | PinCreate | BridgeReport

text \<open>\<open>{success: true, postId}\<close> or \<open>{success: false, reason}\<close>.\<close>

datatype postResult = PostSuccess jsstr | PostFailure jsstr

record summary =
  instagram :: postResult
  facebook :: postResult
  pinterest :: postResult

text \<open>\<open>this.minPostIntervalMs = 2 * 60 * 60 * 1000\<close>, set by the constructor and never changed.\<close>

definition minPostIntervalMs :: int where
  "minPostIntervalMs = 2 * 60 * 60 * 1000"

text \<open>
  A reading of \<open>Date.now()\<close>: the milliseconds since 1 January 1970 UTC. The clock of a
  running server is past the first two hours of 1970, so a reading is at least
  \<open>minPostIntervalMs\<close>; \<open>millis\<close> gives the number read.
\<close>

typedef instant = "{t :: int. minPostIntervalMs \<le> t}"
  morphisms millis Instant
  by (rule exI [of _ minPostIntervalMs]) simp

text \<open>
  The SocialPoster singleton: which channels are configured, whether an AI copy
  generator and an alerting bridge were given to \<open>init\<close>, the \<open>lastPostTime\<close> object
  (a key is absent until \<open>markPosted\<close> writes it), and the calls made so far. The logger
  is set, as \<open>init\<close> leaves it (\<open>logger || console\<close>).
\<close>

record poster =
  igEnabled :: bool
  metaEnabled :: bool
  pinterestEnabled :: bool
  hasAiGenerator :: bool
  hasBridge :: bool
  lastPostTime :: "platform \<Rightarrow> instant option"
  netlog :: "netcall list"

text \<open>What a product or an approved content hands to the poster.\<close>

record sproduct =
  sp_title :: string
  featuredImage :: jsstr
  firstImage :: jsstr

text \<open>
  How the outside world answers during one broadcast: each HTTP call either throws
  (\<open>Inl\<close> the error message) or returns the id field of its response, and \<open>doneAt\<close> is
  what \<open>Date.now()\<close> reads when \<open>markPosted\<close> runs for a channel.
\<close>

record provider =
  igContainer :: "string + jsstr"
  igPublish :: "string + jsstr"
  fbPost :: "string + jsstr"
  pinPost :: "string + jsstr"
  doneAt :: "platform \<Rightarrow> instant"

text \<open>\<open>canPost\<close>: \<open>Date.now() - (this.lastPostTime[platform] || 0) >= this.minPostIntervalMs\<close>.\<close>

definition canPost :: "poster \<Rightarrow> instant \<Rightarrow> platform \<Rightarrow> bool" where
  "canPost s now pf =
     (millis now - (case lastPostTime s pf of None \<Rightarrow> 0 | Some t \<Rightarrow> millis t) \<ge> minPostIntervalMs)"

text \<open>\<open>markPosted\<close>: \<open>this.lastPostTime[platform] = Date.now()\<close>; \<open>t\<close> is that reading.\<close>

definition markPosted :: "platform \<Rightarrow> instant \<Rightarrow> poster \<Rightarrow> poster" where
  "markPosted pf t s = s\<lparr>lastPostTime := (lastPostTime s)(pf \<mapsto> t)\<rparr>"

definition called :: "netcall \<Rightarrow> poster \<Rightarrow> poster" where
  "called c s = s\<lparr>netlog := netlog s @ [c]\<rparr>"

text \<open>\<open>generateSocialCopy\<close> calls the AI generator when there is one; it never throws.\<close>

definition generateSocialCopy :: "platform \<Rightarrow> poster \<Rightarrow> poster" where
  "generateSocialCopy pf s = (if hasAiGenerator s then called (AiCopy pf) s else s)"

text \<open>\<open>product.featuredImage || product.images?.[0]\<close>.\<close>

definition imageUrl :: "sproduct \<Rightarrow> jsstr" where
  "imageUrl p = (if truthyStr (featuredImage p) then featuredImage p else firstImage p)"

text \<open>The part of \<open>postToInstagram\<close> inside \<open>try\<close>, after the two guards.\<close>

definition instagramExchange :: "provider \<Rightarrow> sproduct \<Rightarrow> poster \<Rightarrow> postResult \<times> poster" where
  "instagramExchange env p s =
     (let s1 = generateSocialCopy Instagram s in
      if \<not> truthyStr (imageUrl p) then (PostFailure (Val ''no_image''), s1)
      else (case igContainer env of
        Inl msg \<Rightarrow> (PostFailure (Val msg), called IgContainer s1)
      | Inr containerId \<Rightarrow>
          (if \<not> truthyStr containerId
           then (PostFailure (Val ''No container ID''), called IgContainer s1)
           else (case igPublish env of
             Inl msg \<Rightarrow> (PostFailure (Val msg), called IgPublish (called IgContainer s1))
           | Inr postId \<Rightarrow>
               (PostSuccess postId,
                markPosted Instagram (doneAt env Instagram)
                  (called IgPublish (called IgContainer s1)))))))"

definition postToInstagram :: "provider \<Rightarrow> instant \<Rightarrow> sproduct \<Rightarrow> poster \<Rightarrow> postResult \<times> poster" where
  "postToInstagram env now p s =
     (if \<not> igEnabled s then (PostFailure (Val ''not_configured''), s)
      else if \<not> canPost s now Instagram then (PostFailure (Val ''rate_limited''), s)
      else instagramExchange env p s)"

definition facebookExchange :: "provider \<Rightarrow> sproduct \<Rightarrow> poster \<Rightarrow> postResult \<times> poster" where
  "facebookExchange env p s =
     (let s1 = generateSocialCopy Facebook s;
          s2 = called (if truthyStr (imageUrl p) then FbPhotos else FbFeed) s1
      in (case fbPost env of
           Inl msg \<Rightarrow> (PostFailure (Val msg), s2)
         | Inr postId \<Rightarrow> (PostSuccess postId, markPosted Facebook (doneAt env Facebook) s2)))"

definition postToFacebook :: "provider \<Rightarrow> instant \<Rightarrow> sproduct \<Rightarrow> poster \<Rightarrow> postResult \<times> poster" where
  "postToFacebook env now p s =
     (if \<not> metaEnabled s then (PostFailure (Val ''not_configured''), s)
      else if \<not> canPost s now Facebook then (PostFailure (Val ''rate_limited''), s)
      else facebookExchange env p s)"

definition pinterestExchange :: "provider \<Rightarrow> sproduct \<Rightarrow> poster \<Rightarrow> postResult \<times> poster" where
  "pinterestExchange env p s =
     (let s1 = generateSocialCopy Pinterest s in
      if \<not> truthyStr (imageUrl p) then (PostFailure (Val ''no_image''), s1)
      else (case pinPost env of
        Inl msg \<Rightarrow> (PostFailure (Val msg), called PinCreate s1)
      | Inr pinId \<Rightarrow>
          (PostSuccess pinId, markPosted Pinterest (doneAt env Pinterest) (called PinCreate s1))))"

definition postToPinterest :: "provider \<Rightarrow> instant \<Rightarrow> sproduct \<Rightarrow> poster \<Rightarrow> postResult \<times> poster" where
  "postToPinterest env now p s =
     (if \<not> pinterestEnabled s then (PostFailure (Val ''not_configured''), s)
      else if \<not> canPost s now Pinterest then (PostFailure (Val ''rate_limited''), s)
      else pinterestExchange env p s)"

text \<open>A rate-limited publish attempt to one channel.\<close>

fun postTo :: "platform \<Rightarrow> provider \<Rightarrow> instant \<Rightarrow> sproduct \<Rightarrow> poster \<Rightarrow> postResult \<times> poster" where
  "postTo Instagram = postToInstagram"
| "postTo Facebook = postToFacebook"
| "postTo Pinterest = postToPinterest"

fun enabled :: "poster \<Rightarrow> platform \<Rightarrow> bool" where
  "enabled s Instagram = igEnabled s"
| "enabled s Facebook = metaEnabled s"
| "enabled s Pinterest = pinterestEnabled s"

text \<open>
  \<open>postProductToAll\<close>. The three posts are started together; each one evaluates its
  guards before its first \<open>await\<close> and only touches its own key of \<open>lastPostTime\<close>, so
  running them one after the other from the same reading \<open>now\<close> gives the same results
  and the same \<open>lastPostTime\<close>. In \<open>netlog\<close> the calls of one channel are in the order
  they are made; how the calls of different channels interleave within one broadcast is
  the scheduler's choice, and the order recorded here is only one of the possible ones.
  The report to the bridge is wrapped in \<open>try/catch\<close>.
\<close>

definition postProductToAll :: "provider \<Rightarrow> instant \<Rightarrow> sproduct \<Rightarrow> poster \<Rightarrow> summary \<times> poster" where
  "postProductToAll env now p s =
     (let (r1, s1) = postToInstagram env now p s;
          (r2, s2) = postToFacebook env now p s1;
          (r3, s3) = postToPinterest env now p s2;
          s4 = (if hasBridge s3 then called BridgeReport s3 else s3)
      in (\<lparr>instagram = r1, facebook = r2, pinterest = r3\<rparr>, s4))"

text \<open>\<open>summary[platform]\<close>.\<close>

fun resultFor :: "summary \<Rightarrow> platform \<Rightarrow> postResult" where
  "resultFor r Instagram = instagram r"
| "resultFor r Facebook = facebook r"
| "resultFor r Pinterest = pinterest r"

text \<open>\<open>Object.values(results).filter(r => r?.success).length\<close>.\<close>

fun succeeded :: "postResult \<Rightarrow> nat" where
  "succeeded (PostSuccess _) = 1"
| "succeeded (PostFailure _) = 0"

definition successCount :: "summary \<Rightarrow> nat" where
  "successCount r = succeeded (instagram r) + succeeded (facebook r) + succeeded (pinterest r)"

text \<open>
  \<open>MarketingOrchestrator.forcePostProduct\<close>: \<open>socialPoster.lastPostTime = {}\<close>, then
  \<open>postProductToAll\<close>; the number of successes is added to \<open>stats.socialPostsSent\<close>.
\<close>

definition forcePostProduct ::
  "provider \<Rightarrow> instant \<Rightarrow> sproduct \<Rightarrow> poster \<times> nat \<Rightarrow> summary \<times> poster \<times> nat" where
  "forcePostProduct env now p st =
     (let (s, socialPostsSent) = st;
          (results, s') = postProductToAll env now p (s\<lparr>lastPostTime := Map.empty\<rparr>)
      in (results, s', socialPostsSent + successCount results))"


subsection \<open>Example values\<close>

definition poster0 :: poster where
  "poster0 = \<lparr>igEnabled = True, metaEnabled = True, pinterestEnabled = True,
     hasAiGenerator = False, hasBridge = False, lastPostTime = Map.empty, netlog = []\<rparr>"

text \<open>A provider that accepts every call; \<open>markPosted\<close> reads the clock at \<open>t\<close>.\<close>

definition okProvider :: "int \<Rightarrow> provider" where
  "okProvider t = \<lparr>igContainer = Inr (Val ''c1''), igPublish = Inr (Val ''p1''),
     fbPost = Inr (Val ''f1''), pinPost = Inr (Val ''n1''), doneAt = (\<lambda>pf. Instant t)\<rparr>"

definition lamp :: sproduct where
  "lamp = \<lparr>sp_title = ''Lamp'', featuredImage = Val ''https://img.example/lamp.png'',
     firstImage = Undefined\<rparr>"

definition mug :: sproduct where
  "mug = \<lparr>sp_title = ''Mug'', featuredImage = Val [], firstImage = Undefined\<rparr>"

subsection \<open>What a channel exchange can change\<close>

lemma instagramExchange_frame:
  "igEnabled (snd (instagramExchange env p s)) = igEnabled s"
  "metaEnabled (snd (instagramExchange env p s)) = metaEnabled s"
  "pinterestEnabled (snd (instagramExchange env p s)) = pinterestEnabled s"
  "hasBridge (snd (instagramExchange env p s)) = hasBridge s"
  "hasAiGenerator (snd (instagramExchange env p s)) = hasAiGenerator s"
  "pf \<noteq> Instagram \<Longrightarrow> lastPostTime (snd (instagramExchange env p s)) pf = lastPostTime s pf"
  by (simp_all add: instagramExchange_def generateSocialCopy_def called_def markPosted_def Let_def
      split: sum.splits)

lemma facebookExchange_frame:
  "igEnabled (snd (facebookExchange env p s)) = igEnabled s"
  "metaEnabled (snd (facebookExchange env p s)) = metaEnabled s"
  "pinterestEnabled (snd (facebookExchange env p s)) = pinterestEnabled s"
  "hasBridge (snd (facebookExchange env p s)) = hasBridge s"
  "hasAiGenerator (snd (facebookExchange env p s)) = hasAiGenerator s"
  "pf \<noteq> Facebook \<Longrightarrow> lastPostTime (snd (facebookExchange env p s)) pf = lastPostTime s pf"
  by (simp_all add: facebookExchange_def generateSocialCopy_def called_def markPosted_def Let_def
      split: sum.splits)

lemma instagramExchange_result: "fst (instagramExchange env p s) = fst (instagramExchange env p s')"
  by (simp add: instagramExchange_def Let_def split: sum.splits)
lemma facebookExchange_result: "fst (facebookExchange env p s) = fst (facebookExchange env p s')"
  by (simp add: facebookExchange_def Let_def split: sum.splits)
lemma pinterestExchange_result: "fst (pinterestExchange env p s) = fst (pinterestExchange env p s')"
  by (simp add: pinterestExchange_def Let_def split: sum.splits)

lemma pinterestExchange_frame:
  "igEnabled (snd (pinterestExchange env p s)) = igEnabled s"
  "metaEnabled (snd (pinterestExchange env p s)) = metaEnabled s"
  "pinterestEnabled (snd (pinterestExchange env p s)) = pinterestEnabled s"
  "hasBridge (snd (pinterestExchange env p s)) = hasBridge s"
  "hasAiGenerator (snd (pinterestExchange env p s)) = hasAiGenerator s"
  "pf \<noteq> Pinterest \<Longrightarrow> lastPostTime (snd (pinterestExchange env p s)) pf = lastPostTime s pf"
  by (simp_all add: pinterestExchange_def generateSocialCopy_def called_def markPosted_def Let_def
      split: sum.splits)

text \<open>An exchange writes its channel's timestamp when it succeeds, and no timestamp otherwise.\<close>

lemma instagramExchange_timestamps:
  "lastPostTime (snd (instagramExchange env p s)) =
     (case fst (instagramExchange env p s) of
        PostSuccess i \<Rightarrow> (lastPostTime s)(Instagram \<mapsto> doneAt env Instagram)
      | PostFailure r \<Rightarrow> lastPostTime s)"
  by (simp add: instagramExchange_def generateSocialCopy_def called_def markPosted_def Let_def
      split: sum.splits)

lemma facebookExchange_timestamps:
  "lastPostTime (snd (facebookExchange env p s)) =
     (case fst (facebookExchange env p s) of
        PostSuccess i \<Rightarrow> (lastPostTime s)(Facebook \<mapsto> doneAt env Facebook)
      | PostFailure r \<Rightarrow> lastPostTime s)"
  by (simp add: facebookExchange_def generateSocialCopy_def called_def markPosted_def Let_def
      split: sum.splits)

lemma pinterestExchange_timestamps:
  "lastPostTime (snd (pinterestExchange env p s)) =
     (case fst (pinterestExchange env p s) of
        PostSuccess i \<Rightarrow> (lastPostTime s)(Pinterest \<mapsto> doneAt env Pinterest)
      | PostFailure r \<Rightarrow> lastPostTime s)"
  by (simp add: pinterestExchange_def generateSocialCopy_def called_def markPosted_def Let_def
      split: sum.splits)


subsection \<open>The cooldown check\<close>

lemma millis_ge: "minPostIntervalMs \<le> millis t"
  using millis [of t] by simp

lemma millis_Instant: "minPostIntervalMs \<le> t \<Longrightarrow> millis (Instant t) = t"
  by (simp add: Instant_inverse)

lemma gate_refuses:
  assumes "enabled s pf" "lastPostTime s pf = Some t" "millis now - millis t < minPostIntervalMs"
  shows "postTo pf env now p s = (PostFailure (Val ''rate_limited''), s)"
  using assms by (cases pf) (simp_all add: postToInstagram_def postToFacebook_def postToPinterest_def canPost_def)

text \<open>With no timestamp for the channel the check reads \<open>Date.now() - 0\<close>, which is at least
  the window.\<close>

lemma canPost_cleared: "lastPostTime s pf = None \<Longrightarrow> canPost s now pf"
  by (simp add: canPost_def millis_ge)

lemma postToInstagram_cleared:
  assumes "lastPostTime s Instagram = None"
  shows "postToInstagram env now p s =
     (if igEnabled s then instagramExchange env p s else (PostFailure (Val ''not_configured''), s))"
  using assms by (simp add: postToInstagram_def canPost_cleared)

lemma postToFacebook_cleared:
  assumes "lastPostTime s Facebook = None"
  shows "postToFacebook env now p s =
     (if metaEnabled s then facebookExchange env p s else (PostFailure (Val ''not_configured''), s))"
  using assms by (simp add: postToFacebook_def canPost_cleared)

lemma postToPinterest_cleared:
  assumes "lastPostTime s Pinterest = None"
  shows "postToPinterest env now p s =
     (if pinterestEnabled s then pinterestExchange env p s else (PostFailure (Val ''not_configured''), s))"
  using assms by (simp add: postToPinterest_def canPost_cleared)

lemma postProductToAll_cleared:
  assumes clr: "lastPostTime s = Map.empty"
  shows "fst (postProductToAll env now p s) =
     \<lparr>instagram = (if igEnabled s then fst (instagramExchange env p s) else PostFailure (Val ''not_configured'')),
      facebook = (if metaEnabled s then fst (facebookExchange env p s) else PostFailure (Val ''not_configured'')),
      pinterest = (if pinterestEnabled s then fst (pinterestExchange env p s) else PostFailure (Val ''not_configured''))\<rparr>"
proof -
  obtain r1 s1 where a: "postToInstagram env now p s = (r1, s1)" by (cases "postToInstagram env now p s")
  obtain r2 s2 where b: "postToFacebook env now p s1 = (r2, s2)" by (cases "postToFacebook env now p s1")
  obtain r3 s3 where c: "postToPinterest env now p s2 = (r3, s3)" by (cases "postToPinterest env now p s2")
  have s0: "lastPostTime s Instagram = None" using clr by simp
  have a': "(r1, s1) = (if igEnabled s then instagramExchange env p s else (PostFailure (Val ''not_configured''), s))"
    using postToInstagram_cleared [OF s0] a by simp
  have r1: "r1 = (if igEnabled s then fst (instagramExchange env p s) else PostFailure (Val ''not_configured''))"
    using arg_cong [OF a', of fst] by (simp split: if_splits)
  have s1: "s1 = (if igEnabled s then snd (instagramExchange env p s) else s)"
    using arg_cong [OF a', of snd] by (simp split: if_splits)
  have s1f: "lastPostTime s1 Facebook = None" "lastPostTime s1 Pinterest = None" "metaEnabled s1 = metaEnabled s" "pinterestEnabled s1 = pinterestEnabled s"
    using s1 clr by (simp_all add: instagramExchange_frame)
  have b': "(r2, s2) = (if metaEnabled s1 then facebookExchange env p s1 else (PostFailure (Val ''not_configured''), s1))"
    using postToFacebook_cleared [OF s1f(1)] b by simp
  have r2: "r2 = (if metaEnabled s then fst (facebookExchange env p s) else PostFailure (Val ''not_configured''))"
    using arg_cong [OF b', of fst] s1f(3) facebookExchange_result [of env p s1 s] by (simp split: if_splits)
  have s2: "s2 = (if metaEnabled s1 then snd (facebookExchange env p s1) else s1)"
    using arg_cong [OF b', of snd] by (simp split: if_splits)
  have s2f: "lastPostTime s2 Pinterest = None" "pinterestEnabled s2 = pinterestEnabled s"
    using s2 s1f by (simp_all add: facebookExchange_frame)
  have c': "(r3, s3) = (if pinterestEnabled s2 then pinterestExchange env p s2 else (PostFailure (Val ''not_configured''), s2))"
    using postToPinterest_cleared [OF s2f(1)] c by simp
  have r3: "r3 = (if pinterestEnabled s then fst (pinterestExchange env p s) else PostFailure (Val ''not_configured''))"
    using arg_cong [OF c', of fst] s2f(2) pinterestExchange_result [of env p s2 s] by (simp split: if_splits)
  have "fst (postProductToAll env now p s) = \<lparr>instagram = r1, facebook = r2, pinterest = r3\<rparr>"
    by (simp add: postProductToAll_def a b c)
  then show ?thesis
    unfolding r1 r2 r3 .
qed

subsection \<open>Where the timestamps come from\<close>

text \<open>
  A rate-limited attempt writes the channel's timestamp (the clock reading taken by
  \<open>markPosted\<close>) when it succeeds; refused or failed, it leaves \<open>lastPostTime\<close> as it was.
\<close>

lemma postTo_timestamps:
  "lastPostTime (snd (postTo pf env now p s)) =
     (case fst (postTo pf env now p s) of
        PostSuccess i \<Rightarrow> (lastPostTime s)(pf \<mapsto> doneAt env pf)
      | PostFailure r \<Rightarrow> lastPostTime s)"
  by (cases pf)
     (simp_all add: postToInstagram_def postToFacebook_def postToPinterest_def
        instagramExchange_timestamps facebookExchange_timestamps pinterestExchange_timestamps
        split: postResult.splits)

lemma postTo_enabled:
  "enabled (snd (postTo pf env now p s)) pf' = enabled s pf'"
  by (cases pf; cases pf')
     (simp_all add: postToInstagram_def postToFacebook_def postToPinterest_def
        instagramExchange_frame facebookExchange_frame pinterestExchange_frame)

lemma postTo_success_enabled:
  "fst (postTo pf env now p s) = PostSuccess i \<Longrightarrow> enabled s pf"
  by (cases pf)
     (simp_all add: postToInstagram_def postToFacebook_def postToPinterest_def split: if_splits)

text \<open>Two attempts on one channel: after a success, an attempt made less than the window
  after the recorded reading is refused.\<close>

lemma second_attempt_refused:
  assumes ok: "fst (postTo pf env now p s) = PostSuccess i"
    and soon: "millis now' - millis (doneAt env pf) < minPostIntervalMs"
  shows "postTo pf env' now' p' (snd (postTo pf env now p s)) =
           (PostFailure (Val ''rate_limited''), snd (postTo pf env now p s))"
proof -
  let ?s1 = "snd (postTo pf env now p s)"
  have e: "enabled ?s1 pf" using postTo_success_enabled [OF ok] by (simp add: postTo_enabled)
  have t: "lastPostTime ?s1 pf = Some (doneAt env pf)"
    by (simp add: postTo_timestamps [of pf env now p s] ok)
  show ?thesis by (rule gate_refuses [OF e t soon])
qed

text \<open>After a broadcast, a channel on which it succeeded has the new reading and every
  other channel has the timestamp it had before.\<close>

lemma postProductToAll_timestamps:
  "lastPostTime (snd (postProductToAll env now p s)) pf =
     (case resultFor (fst (postProductToAll env now p s)) pf of
        PostSuccess i \<Rightarrow> Some (doneAt env pf)
      | PostFailure r \<Rightarrow> lastPostTime s pf)"
proof -
  obtain r1 s1 where a: "postToInstagram env now p s = (r1, s1)" by (cases "postToInstagram env now p s")
  obtain r2 s2 where b: "postToFacebook env now p s1 = (r2, s2)" by (cases "postToFacebook env now p s1")
  obtain r3 s3 where c: "postToPinterest env now p s2 = (r3, s3)" by (cases "postToPinterest env now p s2")
  have t1: "lastPostTime s1 = (case r1 of PostSuccess i \<Rightarrow> (lastPostTime s)(Instagram \<mapsto> doneAt env Instagram)
      | PostFailure r \<Rightarrow> lastPostTime s)"
    using postTo_timestamps [of Instagram env now p s] by (simp add: a)
  have t2: "lastPostTime s2 = (case r2 of PostSuccess i \<Rightarrow> (lastPostTime s1)(Facebook \<mapsto> doneAt env Facebook)
      | PostFailure r \<Rightarrow> lastPostTime s1)"
    using postTo_timestamps [of Facebook env now p s1] by (simp add: b)
  have t3: "lastPostTime s3 = (case r3 of PostSuccess i \<Rightarrow> (lastPostTime s2)(Pinterest \<mapsto> doneAt env Pinterest)
      | PostFailure r \<Rightarrow> lastPostTime s2)"
    using postTo_timestamps [of Pinterest env now p s2] by (simp add: c)
  have f: "fst (postProductToAll env now p s) = \<lparr>instagram = r1, facebook = r2, pinterest = r3\<rparr>"
    by (simp add: postProductToAll_def a b c)
  have g: "lastPostTime (snd (postProductToAll env now p s)) = lastPostTime s3"
    by (simp add: postProductToAll_def a b c called_def)
  show ?thesis
    unfolding f g t3 t2 t1
    by (cases pf; cases r1; cases r2; cases r3) simp_all
qed

text \<open>What a forced post returns and leaves behind.\<close>

lemma forcePostProduct_parts:
  "fst (forcePostProduct env now p (s, n)) = fst (postProductToAll env now p (s\<lparr>lastPostTime := Map.empty\<rparr>))"
  "fst (snd (forcePostProduct env now p (s, n))) = snd (postProductToAll env now p (s\<lparr>lastPostTime := Map.empty\<rparr>))"
  "snd (snd (forcePostProduct env now p (s, n))) = n + successCount (fst (forcePostProduct env now p (s, n)))"
  by (simp_all add: forcePostProduct_def split: prod.splits)


text \<open>
  C4 as stated fails. Instagram is posted to successfully through the rate-limited path;
  one minute later a forced post of a product without an image clears every timestamp and
  fails on Instagram (\<open>no_image\<close>, so no new timestamp is written); one minute after that a
  rate-limited attempt on Instagram, less than two minutes after the previous successful
  post there, is let through and makes its two HTTP calls.
\<close>

theorem cooldown_after_forced_post_counterexample:
  "(let (r1, s1) = postToInstagram (okProvider 1700000006000) (Instant 1700000000000) lamp poster0;
        (r2, s2, n2) = forcePostProduct (okProvider 1700000061000) (Instant 1700000060000) mug (s1, 0);
        (r3, s3) = postToInstagram (okProvider 1700000126000) (Instant 1700000120000) lamp s2
    in r1 = PostSuccess (Val ''p1'') \<and> lastPostTime s1 Instagram = Some (Instant 1700000006000)
       \<and> instagram r2 = PostFailure (Val ''no_image'')
       \<and> lastPostTime s2 Instagram = None
       \<and> millis (Instant 1700000120000) - millis (Instant 1700000006000) < minPostIntervalMs
       \<and> r3 = PostSuccess (Val ''p1'')
       \<and> r3 \<noteq> PostFailure (Val ''rate_limited'')
       \<and> netlog s3 = netlog s2 @ [IgContainer, IgPublish])"
  by (simp add: postToInstagram_def instagramExchange_def forcePostProduct_def postProductToAll_def
     postToFacebook_def postToPinterest_def facebookExchange_def pinterestExchange_def
     canPost_def millis_Instant minPostIntervalMs_def poster0_def okProvider_def lamp_def mug_def
     imageUrl_def generateSocialCopy_def called_def markPosted_def successCount_def Let_def)

text \<open>
  C4, amended. For an enabled channel whose recorded cooldown timestamp is less than the
  window old, a rate-limited publish attempt returns \<open>rate_limited\<close> and changes nothing:
  no call is made, no timestamp is written. The timestamp of a channel is written by a
  successful rate-limited post to it, and by nothing else on that path: a refused or
  failed attempt leaves every timestamp as it was. So an attempt made less than the window
  after a successful post, with nothing in between, is refused. A forced post erases the
  timestamps of all channels before posting and is never refused by the cooldown check:
  each channel's result is \<open>not_configured\<close> for a disabled channel and otherwise what the
  exchange with the provider yields; afterwards a channel has a timestamp exactly if the
  forced post succeeded on it, and the count of posts sent has grown by the number of
  successes.
\<close>

theorem cooldown_gate_and_forced_post:
  "(enabled s pf \<and> lastPostTime s pf = Some t \<and> millis now - millis t < minPostIntervalMs \<longrightarrow>
       postTo pf env now p s = (PostFailure (Val ''rate_limited''), s))
   \<and> lastPostTime (snd (postTo pf env now p s)) =
       (case fst (postTo pf env now p s) of
          PostSuccess i \<Rightarrow> (lastPostTime s)(pf \<mapsto> doneAt env pf)
        | PostFailure r \<Rightarrow> lastPostTime s)
   \<and> (fst (postTo pf env now p s) = PostSuccess postId
        \<and> millis now' - millis (doneAt env pf) < minPostIntervalMs \<longrightarrow>
       postTo pf env' now' p' (snd (postTo pf env now p s)) =
         (PostFailure (Val ''rate_limited''), snd (postTo pf env now p s)))
   \<and> fst (forcePostProduct env now p (s, n)) =
         \<lparr>instagram = (if igEnabled s then fst (instagramExchange env p s)
                       else PostFailure (Val ''not_configured'')),
          facebook = (if metaEnabled s then fst (facebookExchange env p s)
                      else PostFailure (Val ''not_configured'')),
          pinterest = (if pinterestEnabled s then fst (pinterestExchange env p s)
                       else PostFailure (Val ''not_configured''))\<rparr>
   \<and> lastPostTime (fst (snd (forcePostProduct env now p (s, n)))) pf =
       (case resultFor (fst (forcePostProduct env now p (s, n))) pf of
          PostSuccess i \<Rightarrow> Some (doneAt env pf)
        | PostFailure r \<Rightarrow> None)
   \<and> snd (snd (forcePostProduct env now p (s, n))) =
       n + successCount (fst (forcePostProduct env now p (s, n)))"
proof (intro conjI impI)
  assume "enabled s pf \<and> lastPostTime s pf = Some t \<and> millis now - millis t < minPostIntervalMs"
  then show "postTo pf env now p s = (PostFailure (Val ''rate_limited''), s)"
    using gate_refuses by blast
next
  show "lastPostTime (snd (postTo pf env now p s)) =
       (case fst (postTo pf env now p s) of
          PostSuccess i \<Rightarrow> (lastPostTime s)(pf \<mapsto> doneAt env pf)
        | PostFailure r \<Rightarrow> lastPostTime s)"
    by (rule postTo_timestamps)
next
  assume "fst (postTo pf env now p s) = PostSuccess postId
        \<and> millis now' - millis (doneAt env pf) < minPostIntervalMs"
  then show "postTo pf env' now' p' (snd (postTo pf env now p s)) =
         (PostFailure (Val ''rate_limited''), snd (postTo pf env now p s))"
    using second_attempt_refused by blast
next
  let ?s0 = "s\<lparr>lastPostTime := Map.empty\<rparr>"
  have clr: "lastPostTime ?s0 = Map.empty" by simp
  have flags: "igEnabled ?s0 = igEnabled s" "metaEnabled ?s0 = metaEnabled s"
    "pinterestEnabled ?s0 = pinterestEnabled s" by simp_all
  have "fst (forcePostProduct env now p (s, n)) = fst (postProductToAll env now p ?s0)"
    by (rule forcePostProduct_parts)
  also have "\<dots> =
         \<lparr>instagram = (if igEnabled s then fst (instagramExchange env p ?s0)
                       else PostFailure (Val ''not_configured'')),
          facebook = (if metaEnabled s then fst (facebookExchange env p ?s0)
                      else PostFailure (Val ''not_configured'')),
          pinterest = (if pinterestEnabled s then fst (pinterestExchange env p ?s0)
                       else PostFailure (Val ''not_configured''))\<rparr>"
    unfolding postProductToAll_cleared [OF clr] flags ..
  finally show "fst (forcePostProduct env now p (s, n)) =
         \<lparr>instagram = (if igEnabled s then fst (instagramExchange env p s)
                       else PostFailure (Val ''not_configured'')),
          facebook = (if metaEnabled s then fst (facebookExchange env p s)
                      else PostFailure (Val ''not_configured'')),
          pinterest = (if pinterestEnabled s then fst (pinterestExchange env p s)
                       else PostFailure (Val ''not_configured''))\<rparr>"
    using instagramExchange_result [of env p ?s0 s] facebookExchange_result [of env p ?s0 s]
      pinterestExchange_result [of env p ?s0 s]
    by simp
next
  show "lastPostTime (fst (snd (forcePostProduct env now p (s, n)))) pf =
       (case resultFor (fst (forcePostProduct env now p (s, n))) pf of
          PostSuccess i \<Rightarrow> Some (doneAt env pf)
        | PostFailure r \<Rightarrow> None)"
    unfolding forcePostProduct_parts(1,2)
    using postProductToAll_timestamps [of env now p "s\<lparr>lastPostTime := Map.empty\<rparr>" pf]
    by (simp split: postResult.splits)
next
  show "snd (snd (forcePostProduct env now p (s, n))) =
       n + successCount (fst (forcePostProduct env now p (s, n)))"
    by (rule forcePostProduct_parts)
qed

text \<open>
  Two minutes after a recorded Instagram post the attempt is refused; a first post that
  succeeds is followed, two minutes later, by a refused one; a forced post of the product
  without an image reaches the providers on all three channels, and only Facebook, where
  it succeeds, has a timestamp afterwards.
\<close>

theorem cooldown_gate_and_forced_post_witness:
  "enabled (poster0\<lparr>lastPostTime := [Instagram \<mapsto> Instant 1700000006000]\<rparr>) Instagram
   \<and> millis (Instant 1700000120000) - millis (Instant 1700000006000) < minPostIntervalMs
   \<and> postTo Instagram (okProvider 1700000126000) (Instant 1700000120000) lamp
        (poster0\<lparr>lastPostTime := [Instagram \<mapsto> Instant 1700000006000]\<rparr>)
      = (PostFailure (Val ''rate_limited''),
         poster0\<lparr>lastPostTime := [Instagram \<mapsto> Instant 1700000006000]\<rparr>)
   \<and> fst (postTo Instagram (okProvider 1700000006000) (Instant 1700000000000) lamp poster0)
      = PostSuccess (Val ''p1'')
   \<and> fst (postTo Instagram (okProvider 1700000126000) (Instant 1700000120000) lamp
        (snd (postTo Instagram (okProvider 1700000006000) (Instant 1700000000000) lamp poster0)))
      = PostFailure (Val ''rate_limited'')
   \<and> fst (forcePostProduct (okProvider 1700000061000) (Instant 1700000060000) mug
        (poster0\<lparr>lastPostTime := [Instagram \<mapsto> Instant 1700000006000]\<rparr>, 0))
      = \<lparr>instagram = PostFailure (Val ''no_image''), facebook = PostSuccess (Val ''f1''),
         pinterest = PostFailure (Val ''no_image'')\<rparr>
   \<and> lastPostTime (fst (snd (forcePostProduct (okProvider 1700000061000) (Instant 1700000060000) mug
        (poster0\<lparr>lastPostTime := [Instagram \<mapsto> Instant 1700000006000]\<rparr>, 0)))) Instagram = None"
proof -
  let ?s = "poster0\<lparr>lastPostTime := [Instagram \<mapsto> Instant 1700000006000]\<rparr>"
  let ?s1 = "snd (postTo Instagram (okProvider 1700000006000) (Instant 1700000000000) lamp poster0)"
  have a: "enabled ?s Instagram" by (simp add: poster0_def)
  have b: "lastPostTime ?s Instagram = Some (Instant 1700000006000)" by simp
  have c: "millis (Instant 1700000120000) - millis (Instant 1700000006000) < minPostIntervalMs"
    by (simp add: millis_Instant minPostIntervalMs_def)
  have c': "millis (Instant 1700000120000) - millis (doneAt (okProvider 1700000006000) Instagram)
      < minPostIntervalMs"
    by (simp add: okProvider_def millis_Instant minPostIntervalMs_def)
  have e: "igEnabled ?s" "metaEnabled ?s" "pinterestEnabled ?s" by (simp_all add: poster0_def)
  have f: "fst (instagramExchange (okProvider 1700000061000) mug ?s) = PostFailure (Val ''no_image'')"
    by (simp add: instagramExchange_def imageUrl_def mug_def Let_def)
  have g: "fst (facebookExchange (okProvider 1700000061000) mug ?s) = PostSuccess (Val ''f1'')"
    by (simp add: facebookExchange_def okProvider_def Let_def)
  have h: "fst (pinterestExchange (okProvider 1700000061000) mug ?s) = PostFailure (Val ''no_image'')"
    by (simp add: pinterestExchange_def imageUrl_def mug_def Let_def)
  have k: "fst (postTo Instagram (okProvider 1700000006000) (Instant 1700000000000) lamp poster0)
      = PostSuccess (Val ''p1'')"
    by (simp add: postToInstagram_def instagramExchange_def canPost_def millis_Instant
        minPostIntervalMs_def poster0_def okProvider_def lamp_def imageUrl_def
        generateSocialCopy_def Let_def)
  from cooldown_gate_and_forced_post
    [of ?s Instagram "Instant 1700000006000" "Instant 1700000120000" "okProvider 1700000126000" lamp]
    a b c
  have i: "postTo Instagram (okProvider 1700000126000) (Instant 1700000120000) lamp ?s
      = (PostFailure (Val ''rate_limited''), ?s)" by blast
  from cooldown_gate_and_forced_post
    [of poster0 Instagram _ "Instant 1700000000000" "okProvider 1700000006000" lamp "Val ''p1''"
        "Instant 1700000120000" "okProvider 1700000126000" lamp]
    k c'
  have l: "postTo Instagram (okProvider 1700000126000) (Instant 1700000120000) lamp ?s1
      = (PostFailure (Val ''rate_limited''), ?s1)" by blast
  have l': "fst (postTo Instagram (okProvider 1700000126000) (Instant 1700000120000) lamp ?s1)
      = PostFailure (Val ''rate_limited'')"
    unfolding l by simp
  note w = cooldown_gate_and_forced_post
    [of ?s Instagram _ "Instant 1700000060000" "okProvider 1700000061000" mug _ _ _ _ 0]
  have j: "fst (forcePostProduct (okProvider 1700000061000) (Instant 1700000060000) mug (?s, 0))
      = \<lparr>instagram = PostFailure (Val ''no_image''), facebook = PostSuccess (Val ''f1''),
         pinterest = PostFailure (Val ''no_image'')\<rparr>"
    using w e unfolding f g h by simp
  have m: "lastPostTime (fst (snd (forcePostProduct (okProvider 1700000061000)
      (Instant 1700000060000) mug (?s, 0)))) Instagram = None"
    using w unfolding j by simp
  from a c i k l' j m show ?thesis by blast
qed


section \<open>MarketingOrchestrator: the content approval queue\<close>

datatype contentStatus =
  Generating | PendingApproval | ContentApproved | ContentRejected | ContentPosted | ContentFailed

fun statusName :: "contentStatus \<Rightarrow> string" where
  "statusName Generating = ''generating''"
| "statusName PendingApproval = ''pending_approval''"
| "statusName ContentApproved = ''approved''"
| "statusName ContentRejected = ''rejected''"
| "statusName ContentPosted = ''posted''"
| "statusName ContentFailed = ''failed''"

text \<open>
  A MarketingContent document (its \<open>_id\<close> is its position in the collection); \<open>image.x\<close>
  is written \<open>image_x\<close>, and the caption object is kept as one value.
\<close>

record content =
  productId :: nat
  productTitle :: string
  productImage :: jsstr
  c_status :: contentStatus
  caption :: jsstr
  image_url :: jsstr
  image_status :: jsstr
  image_error :: jsstr
  generationCost :: jsnum
  approvedAt :: "int option"
  rejectedAt :: "int option"
  rejectionReason :: jsstr
  postedAt :: "int option"
  postResults :: "summary option"
  regenerationCount :: nat
  regeneratedFrom :: "nat option"

text \<open>
  The orchestrator singleton with the MarketingContent collection and the SocialPoster
  it drives. The store itself is taken to answer every read and write.
\<close>

record mstate =
  contents :: "content list"
  m_poster :: poster
  contentGenerated :: nat
  contentApproved :: nat
  contentRejected :: nat
  socialPostsSent :: nat
  recentActivity :: "(string \<times> string) list"

definition findById :: "'a list \<Rightarrow> nat \<Rightarrow> 'a option" where
  "findById xs i = (if i < length xs then Some (xs ! i) else None)"

text \<open>\<open>_addActivity\<close>: \<open>unshift\<close>, then \<open>pop\<close> once when more than 200 entries are held.
  An entry is kept as its type and message; the message texts below are shortened.\<close>

definition addActivity :: "string \<Rightarrow> string \<Rightarrow> mstate \<Rightarrow> mstate" where
  "addActivity ty msg st =
     (let xs = (ty, msg) # recentActivity st
      in st\<lparr>recentActivity := (if length xs > 200 then butlast xs else xs)\<rparr>)"

text \<open>
  \<open>SocialPoster.postContentToAll\<close>: no cooldown check; every provider error is caught
  per channel and becomes that channel's result.
\<close>

definition contentToInstagram :: "provider \<Rightarrow> poster \<Rightarrow> postResult \<times> poster" where
  "contentToInstagram env s =
     (if igEnabled s then
        (case igContainer env of
           Inl msg \<Rightarrow> (PostFailure (Val msg), called IgContainer s)
         | Inr containerId \<Rightarrow>
             (if truthyStr containerId then
                (case igPublish env of
                   Inl msg \<Rightarrow> (PostFailure (Val msg), called IgPublish (called IgContainer s))
                 | Inr postId \<Rightarrow>
                     (PostSuccess postId,
                      markPosted Instagram (doneAt env Instagram)
                        (called IgPublish (called IgContainer s))))
              else (PostFailure (Val ''No container ID''), called IgContainer s)))
      else (PostFailure (Val ''not_configured''), s))"

definition contentToFacebook :: "provider \<Rightarrow> jsstr \<Rightarrow> poster \<Rightarrow> postResult \<times> poster" where
  "contentToFacebook env img s =
     (if metaEnabled s then
        (let s1 = called (if truthyStr img then FbPhotos else FbFeed) s
         in (case fbPost env of
               Inl msg \<Rightarrow> (PostFailure (Val msg), s1)
             | Inr postId \<Rightarrow> (PostSuccess postId, markPosted Facebook (doneAt env Facebook) s1)))
      else (PostFailure (Val ''not_configured''), s))"

definition contentToPinterest :: "provider \<Rightarrow> jsstr \<Rightarrow> poster \<Rightarrow> postResult \<times> poster" where
  "contentToPinterest env img s =
     (if pinterestEnabled s then
        (if \<not> truthyStr img then (PostFailure (Val ''No image''), s)
         else (case pinPost env of
                 Inl msg \<Rightarrow> (PostFailure (Val msg), called PinCreate s)
               | Inr pinId \<Rightarrow>
                   (PostSuccess pinId,
                    markPosted Pinterest (doneAt env Pinterest) (called PinCreate s))))
      else (PostFailure (Val ''not_configured''), s))"

definition postContentToAll :: "provider \<Rightarrow> jsstr \<Rightarrow> poster \<Rightarrow> summary \<times> poster" where
  "postContentToAll env img s =
     (let (r1, s1) = contentToInstagram env s;
          (r2, s2) = contentToFacebook env img s1;
          (r3, s3) = contentToPinterest env img s2;
          s4 = (if hasBridge s3 then called BridgeReport s3 else s3)
      in (\<lparr>instagram = r1, facebook = r2, pinterest = r3\<rparr>, s4))"

text \<open>\<open>content.image?.url || content.productImage\<close>.\<close>

definition contentImage :: "content \<Rightarrow> jsstr" where
  "contentImage c = (if truthyStr (image_url c) then image_url c else productImage c)"

text \<open>\<open>{success: true, posted, results}\<close> or \<open>{success: false, error}\<close>.\<close>

datatype approveResult = ApprovePosted nat summary | ApproveFailed string

text \<open>
  \<open>approveContent\<close>. \<open>Inl\<close> in the result is a thrown error. The argument \<open>post\<close> says
  how the call of \<open>postContentToAll\<close> goes: \<open>Inr env\<close> when it runs against the providers
  \<open>env\<close> (their errors are caught per channel), \<open>Inl msg\<close> when the call itself throws
  \<open>msg\<close> before reaching a channel. \<open>now\<close> and \<open>later\<close> are the readings of
  \<open>new Date()\<close> at approval and after posting.
\<close>

definition approveContent ::
  "(string + provider) \<Rightarrow> int \<Rightarrow> int \<Rightarrow> nat \<Rightarrow> mstate \<Rightarrow> (string + approveResult) \<times> mstate" where
  "approveContent post now later contentId st =
     (case findById (contents st) contentId of
        None \<Rightarrow> (Inl ''Content not found'', st)
      | Some c \<Rightarrow>
          if c_status c \<noteq> PendingApproval
          then (Inl (''Cannot approve content with status: '' @ statusName (c_status c)), st)
          else
            (let c1 = c\<lparr>c_status := ContentApproved, approvedAt := Some now\<rparr>;
                 st1 = st\<lparr>contents := (contents st)[contentId := c1],
                          contentApproved := contentApproved st + 1\<rparr>
             in (case post of
                   Inl msg \<Rightarrow> (Inr (ApproveFailed msg), st1)
                 | Inr env \<Rightarrow>
                     (let (results, ps) = postContentToAll env (contentImage c1) (m_poster st1);
                          n = successCount results;
                          c2 = c1\<lparr>c_status := ContentPosted, postedAt := Some later,
                                   postResults := Some results\<rparr>;
                          st2 = st1\<lparr>contents := (contents st1)[contentId := c2],
                                    m_poster := ps,
                                    socialPostsSent := socialPostsSent st1 + n\<rparr>
                      in (Inr (ApprovePosted n results),
                          addActivity ''content_posted'' (''Posted '' @ productTitle c) st2)))))"

text \<open>\<open>rejectContent\<close>: looks the document up and rejects it.\<close>

definition rejectContent :: "string \<Rightarrow> int \<Rightarrow> nat \<Rightarrow> mstate \<Rightarrow> (string + unit) \<times> mstate" where
  "rejectContent reason now contentId st =
     (case findById (contents st) contentId of
        None \<Rightarrow> (Inl ''Content not found'', st)
      | Some c \<Rightarrow>
          (let c1 = c\<lparr>c_status := ContentRejected, rejectedAt := Some now,
                      rejectionReason := Val reason\<rparr>;
               st1 = st\<lparr>contents := (contents st)[contentId := c1],
                        contentRejected := contentRejected st + 1\<rparr>
           in (Inr (),
               addActivity ''content_rejected''
                 (''Rejected content for '' @ productTitle c
                    @ (if reason \<noteq> [] then '': '' @ reason else [])) st1)))"









subsection \<open>Example queue\<close>

definition contentPending :: content where
  "contentPending = \<lparr>productId = 0, productTitle = ''Yoga mat'',
     productImage = Val ''https://img.example/mat.png'', c_status = PendingApproval,
     caption = Val ''Stretch further'', image_url = Val ''https://img.example/gen.png'',
     image_status = Val ''ready'', image_error = Undefined, generationCost = Val 0,
     approvedAt = None, rejectedAt = None, rejectionReason = Undefined, postedAt = None,
     postResults = None, regenerationCount = 0, regeneratedFrom = None\<rparr>"

definition contentPosted :: content where
  "contentPosted = contentPending\<lparr>c_status := ContentPosted, approvedAt := Some 1699990000000,
     postedAt := Some 1699990009000\<rparr>"

definition mstate0 :: mstate where
  "mstate0 = \<lparr>contents = [contentPending, contentPosted], m_poster = poster0,
     contentGenerated = 0, contentApproved = 0, contentRejected = 0, socialPostsSent = 0,
     recentActivity = []\<rparr>"


subsection \<open>Approval and rejection\<close>

lemma approveContent_requires_pending:
  assumes "findById (contents st) cid = Some c" and "c_status c \<noteq> PendingApproval"
  shows "approveContent post now later cid st
     = (Inl (''Cannot approve content with status: '' @ statusName (c_status c)), st)"
  using assms unfolding approveContent_def by simp

lemma approveContent_not_found:
  "findById (contents st) cid = None \<Longrightarrow> approveContent post now later cid st = (Inl ''Content not found'', st)"
  unfolding approveContent_def by simp

lemma rejectContent_any_status:
  assumes "findById (contents st) cid = Some c"
  shows "fst (rejectContent reason now cid st) = Inr ()
     \<and> contents (snd (rejectContent reason now cid st))
        = (contents st)[cid := c\<lparr>c_status := ContentRejected, rejectedAt := Some now,
                      rejectionReason := Val reason\<rparr>]
     \<and> contentRejected (snd (rejectContent reason now cid st)) = contentRejected st + 1"
  using assms unfolding rejectContent_def addActivity_def by (simp add: Let_def)

text \<open>
  C3. \<open>approveContent\<close> refuses an item that is not \<open>pending_approval\<close> and leaves the
  state as it was, but \<open>rejectContent\<close> has no such check: called on an item that is
  already \<open>posted\<close> it returns success and overwrites the status with \<open>rejected\<close>.
\<close>

theorem rejectContent_accepts_posted_item:
  "c_status (contents mstate0 ! 1) = ContentPosted
   \<and> fst (rejectContent ''too late'' 1700000000000 1 mstate0) = Inr ()
   \<and> c_status (contents (snd (rejectContent ''too late'' 1700000000000 1 mstate0)) ! 1) = ContentRejected
   \<and> snd (rejectContent ''too late'' 1700000000000 1 mstate0) \<noteq> mstate0
   \<and> approveContent (Inr (okProvider 1700000000000)) 1700000000000 1700000009000 1 mstate0
        = (Inl ''Cannot approve content with status: posted'', mstate0)"
proof -
  have f: "findById (contents mstate0) 1 = Some contentPosted"
    by (simp add: findById_def mstate0_def)
  have s: "c_status contentPosted = ContentPosted" by (simp add: contentPosted_def)
  have a: "c_status (contents mstate0 ! 1) = ContentPosted" by (simp add: mstate0_def s)
  note r = rejectContent_any_status [OF f, of "''too late''" 1700000000000]
  have b: "c_status (contents (snd (rejectContent ''too late'' 1700000000000 1 mstate0)) ! 1) = ContentRejected"
    using r by (simp add: mstate0_def)
  have c: "snd (rejectContent ''too late'' 1700000000000 1 mstate0) \<noteq> mstate0"
    using a b by auto
  have d: "approveContent (Inr (okProvider 1700000000000)) 1700000000000 1700000009000 1 mstate0
        = (Inl ''Cannot approve content with status: posted'', mstate0)"
    using approveContent_requires_pending [OF f, of "Inr (okProvider 1700000000000)" 1700000000000 1700000009000] s by simp
  from a r b c d show ?thesis by blast
qed

text \<open>
  C10. When the item is \<open>pending_approval\<close> and the posting call throws, \<open>approveContent\<close>
  returns \<open>{success: false, error}\<close>; the stored item is \<open>approved\<close> with \<open>approvedAt\<close>
  set, it has no \<open>postedAt\<close> or \<open>postResults\<close> written, and the poster is untouched.
\<close>

theorem approveContent_post_throws:
  assumes "findById (contents st) cid = Some c" and "c_status c = PendingApproval"
  shows "approveContent (Inl msg) now later cid st
     = (Inr (ApproveFailed msg),
        st\<lparr>contents := (contents st)[cid := c\<lparr>c_status := ContentApproved, approvedAt := Some now\<rparr>],
           contentApproved := contentApproved st + 1\<rparr>)
    \<and> c_status (contents (snd (approveContent (Inl msg) now later cid st)) ! cid) = ContentApproved
    \<and> approvedAt (contents (snd (approveContent (Inl msg) now later cid st)) ! cid) = Some now
    \<and> postedAt (contents (snd (approveContent (Inl msg) now later cid st)) ! cid) = postedAt c
    \<and> postResults (contents (snd (approveContent (Inl msg) now later cid st)) ! cid) = postResults c
    \<and> m_poster (snd (approveContent (Inl msg) now later cid st)) = m_poster st"
proof -
  have lt: "cid < length (contents st)" using assms(1) unfolding findById_def by (simp split: if_splits)
  have eq: "approveContent (Inl msg) now later cid st
     = (Inr (ApproveFailed msg),
        st\<lparr>contents := (contents st)[cid := c\<lparr>c_status := ContentApproved, approvedAt := Some now\<rparr>],
           contentApproved := contentApproved st + 1\<rparr>)"
    using assms unfolding approveContent_def by (simp add: Let_def)
  show ?thesis unfolding eq using lt by simp
qed

theorem approveContent_post_throws_witness:
  "findById (contents mstate0) 0 = Some contentPending \<and> c_status contentPending = PendingApproval
   \<and> fst (approveContent (Inl ''socket hang up'') 1700000000000 1700000009000 0 mstate0)
        = Inr (ApproveFailed ''socket hang up'')
   \<and> c_status (contents (snd (approveContent (Inl ''socket hang up'') 1700000000000
          1700000009000 0 mstate0)) ! 0) = ContentApproved
   \<and> approvedAt (contents (snd (approveContent (Inl ''socket hang up'') 1700000000000
          1700000009000 0 mstate0)) ! 0) = Some 1700000000000
   \<and> postedAt (contents (snd (approveContent (Inl ''socket hang up'') 1700000000000
          1700000009000 0 mstate0)) ! 0) = None"
proof -
  have f: "findById (contents mstate0) 0 = Some contentPending"
    by (simp add: findById_def mstate0_def)
  have g: "c_status contentPending = PendingApproval" by (simp add: contentPending_def)
  have h: "postedAt contentPending = None" by (simp add: contentPending_def)
  note t = approveContent_post_throws [OF f g, of "''socket hang up''" 1700000000000 1700000009000]
  let ?st = "snd (approveContent (Inl ''socket hang up'') 1700000000000 1700000009000 0 mstate0)"
  have a: "fst (approveContent (Inl ''socket hang up'') 1700000000000 1700000009000 0 mstate0)
        = Inr (ApproveFailed ''socket hang up'')"
    using t by (simp only: fst_conv)
  have b: "c_status (contents ?st ! 0) = ContentApproved" using t by blast
  have c: "approvedAt (contents ?st ! 0) = Some 1700000000000" using t by blast
  have "postedAt (contents ?st ! 0) = postedAt contentPending" using t by blast
  then have d: "postedAt (contents ?st ! 0) = None" unfolding h .
  from f g a b c d show ?thesis by blast
qed

subsection \<open>Regeneration\<close>











section \<open>Pipeline runs\<close>

datatype runStatus = Queued | Running | Completed | Failed

text \<open>Log and error entries (their timestamps are not modelled).\<close>

record logEntry =
  level :: string
  message :: string

record errEntry =
  stage :: string
  e_message :: string

record results =
  productsDiscovered :: nat
  productsValidated :: nat
  productsRejected :: nat
  productsListed :: nat
  productsAutoListed :: nat
  errors :: "errEntry list"

record pipelineRun =
  runId :: string
  rtype :: string
  r_status :: runStatus
  triggeredBy :: string
  maxProducts :: "nat option"
  startedAt :: "int option"
  completedAt :: "int option"
  durationMs :: "int option"
  logs :: "logEntry list"
  results :: results

text \<open>A product as \<open>trendScout.scan()\<close> hands it over: the scored fields and the supplier URL.\<close>

record dproduct = tproduct +
  d_supplier_url :: jsstr

text \<open>Calls that leave the pipeline module, in the order they are made.\<close>

datatype call =
    TrendScan
  | AutoSource nat
  | BulkEnrich nat
  | WooCreate nat
  | AirtableSync nat
  | Notify string
  | OnProductLive nat
  | Logger string string

text \<open>
  How the outside world answers during one execution. A provider call throws (\<open>Inl\<close> the
  message) or returns; the sourcing and enrichment providers also rewrite the Product
  collection (\<open>sourceEffect\<close>, \<open>enrichEffect\<close>). \<open>runSaveFails k\<close> is the error of the
  \<open>k\<close>-th \<open>run.save()\<close>, \<open>findFails n\<close> that of the \<open>Product.find\<close> of stage \<open>n\<close> (7 is
  the auto-list sweep), \<open>productSaveFails n i\<close> that of saving product \<open>i\<close> in stage \<open>n\<close>.
  \<open>fmtFixed1\<close> and \<open>fmtNum\<close> stand for \<open>toFixed(1)\<close> and for a number put in a template
  string; \<open>startTime\<close> and \<open>endTime\<close> are the readings of \<open>Date.now()\<close>.
\<close>

record env =
  scanResult :: "string + dproduct list"
  sourceResult :: "string + nat"
  sourceEffect :: "store \<Rightarrow> store"
  enrichResult :: "string + nat"
  enrichEffect :: "store \<Rightarrow> store"
  wooResult :: "nat \<Rightarrow> string + string"
  airtableResult :: "string option"
  notifyResult :: "string option"
  runSaveFails :: "nat \<Rightarrow> string option"
  findFails :: "nat \<Rightarrow> string option"
  productSaveFails :: "nat \<Rightarrow> nat \<Rightarrow> string option"
  fmtFixed1 :: "real \<Rightarrow> string"
  fmtNum :: "int \<Rightarrow> string"
  startTime :: int
  endTime :: int

text \<open>
  The state of one \<open>executePipeline(run)\<close>: the in-memory run document, the copy the
  PipelineRun collection holds, the Product collection, the calls made, the number of
  \<open>run.save()\<close> calls so far, and the function's local variables.
\<close>

record pstate =
  run :: pipelineRun
  dbRun :: pipelineRun
  products :: store
  calls :: "call list"
  saves :: nat
  discoveredProducts :: "dproduct list"
  sourced :: nat
  enriched :: nat
  validated :: nat
  rejected :: nat
  listed :: nat

text \<open>A statement either completes (\<open>None\<close>) or throws (\<open>Some\<close> message); a block runs its
  statements until one throws.\<close>

type_synonym stmt = "pstate \<Rightarrow> string option \<times> pstate"

fun seqM :: "stmt list \<Rightarrow> stmt" where
  "seqM [] s = (None, s)"
| "seqM (f # fs) s = (case f s of (Some e, s') \<Rightarrow> (Some e, s') | (None, s') \<Rightarrow> seqM fs s')"

definition step :: "(pstate \<Rightarrow> pstate) \<Rightarrow> stmt" where
  "step f s = (None, f s)"

text \<open>\<open>run.logs.push({level, message, ...})\<close>.\<close>

definition logPush :: "string \<Rightarrow> string \<Rightarrow> pstate \<Rightarrow> pstate" where
  "logPush lvl msg s = s\<lparr>run := (run s)\<lparr>logs := logs (run s) @ [\<lparr>level = lvl, message = msg\<rparr>]\<rparr>\<rparr>"

text \<open>\<open>run.results.errors.push({stage, message, ...})\<close>.\<close>

definition pushError :: "string \<Rightarrow> string \<Rightarrow> pstate \<Rightarrow> pstate" where
  "pushError stg msg s =
     s\<lparr>run := (run s)\<lparr>results := (results (run s))
          \<lparr>errors := errors (results (run s)) @ [\<lparr>stage = stg, e_message = msg\<rparr>]\<rparr>\<rparr>\<rparr>"

definition callOut :: "call \<Rightarrow> pstate \<Rightarrow> pstate" where
  "callOut c s = s\<lparr>calls := calls s @ [c]\<rparr>"

text \<open>\<open>await run.save()\<close>.\<close>

definition saveRun :: "env \<Rightarrow> stmt" where
  "saveRun ev s =
     (case runSaveFails ev (saves s) of
        Some e \<Rightarrow> (Some e, s\<lparr>saves := saves s + 1\<rparr>)
      | None \<Rightarrow> (None, s\<lparr>dbRun := run s, saves := saves s + 1\<rparr>))"

subsection \<open>Stage 1: trend discovery\<close>

text \<open>\<open>let discoveredProducts = []; try { discoveredProducts = await trendScout.scan(); }
  catch (err) { run.results.errors.push(...) }\<close>.\<close>

definition tryScan :: "env \<Rightarrow> pstate \<Rightarrow> pstate" where
  "tryScan ev s =
     (let s1 = (callOut TrendScan s)\<lparr>discoveredProducts := []\<rparr>
      in case scanResult ev of
           Inr ps \<Rightarrow> s1\<lparr>discoveredProducts := ps\<rparr>
         | Inl e \<Rightarrow> pushError ''trend_discovery'' e s1)"

text \<open>
  \<open>new Product({...})\<close> with the schema's defaults; \<open>title\<close> and \<open>costUsd\<close> are required,
  so \<open>save()\<close> rejects a product without a name or a numeric cost.
\<close>

definition newProduct :: "dproduct \<Rightarrow> product option" where
  "newProduct d =
     (case (name d, costUsd d) of
        (Val n, Val c) \<Rightarrow>
          if n = [] then None
          else Some \<lparr>title = n, p_costUsd = Val c, sellingPriceAud = Val 0, comparePriceAud = Null,
                 profitMarginPercent = Val 0, supplier_url = d_supplier_url d,
                 p_featuredImage = Val [],
                 p_firstImageUrl = (if truthyStr (image d) then image d else Undefined),
                 isActive = True, pl_researchScore = orNum (trendScore d) (Val 0),
                 pl_approved = False, pl_rejectionReason = [], pl_runId = [],
                 woocommerceProductId = Null, status = Undefined, shopifyStatus = Undefined\<rparr>
      | _ \<Rightarrow> None)"

text \<open>The loop saving the discovered products; a failed save is only logged.\<close>

fun saveDiscovered :: "env \<Rightarrow> nat \<Rightarrow> dproduct list \<Rightarrow> pstate \<Rightarrow> pstate" where
  "saveDiscovered ev k [] s = s"
| "saveDiscovered ev k (d # ds) s =
     saveDiscovered ev (k + 1) ds
       (case newProduct d of
          None \<Rightarrow> callOut (Logger ''warn'' ''Failed to save product'') s
        | Some doc \<Rightarrow>
            (case productSaveFails ev 1 k of
               Some e \<Rightarrow> callOut (Logger ''warn'' ''Failed to save product'') s
             | None \<Rightarrow> s\<lparr>products := products s @ [doc]\<rparr>))"

definition stage1 :: "env \<Rightarrow> stmt" where
  "stage1 ev = seqM
     [step (logPush ''info'' ''Stage 1: TrendScout - discovering products''),
      saveRun ev,
      step (tryScan ev),
      step (\<lambda>s. s\<lparr>run := (run s)\<lparr>results := (results (run s))
                  \<lparr>productsDiscovered := length (discoveredProducts s)\<rparr>\<rparr>\<rparr>),
      step (\<lambda>s. logPush ''info'' (''Stage 1 complete: ''
                  @ fmtNum ev (int (length (discoveredProducts s))) @ '' products discovered'') s),
      saveRun ev,
      step (\<lambda>s. saveDiscovered ev 0 (discoveredProducts s) s)]"

subsection \<open>Stages 2 and 3: supplier sourcing and AI content\<close>

definition trySource :: "env \<Rightarrow> pstate \<Rightarrow> pstate" where
  "trySource ev s =
     (let s1 = (callOut (AutoSource (limitOr (maxProducts (run s)) 20)) s)
                \<lparr>products := sourceEffect ev (products s), sourced := 0\<rparr>
      in case sourceResult ev of
           Inr n \<Rightarrow> s1\<lparr>sourced := n\<rparr>
         | Inl e \<Rightarrow> pushError ''supplier_sourcing'' e s1)"

definition stage2 :: "env \<Rightarrow> stmt" where
  "stage2 ev = seqM
     [step (logPush ''info'' ''Stage 2: Supplier sourcing''),
      saveRun ev,
      step (trySource ev),
      step (\<lambda>s. logPush ''info'' (''Stage 2 complete: '' @ fmtNum ev (int (sourced s))
                  @ '' products sourced'') s),
      saveRun ev]"

definition tryEnrich :: "env \<Rightarrow> pstate \<Rightarrow> pstate" where
  "tryEnrich ev s =
     (let s1 = (callOut (BulkEnrich (limitOr (maxProducts (run s)) 15)) s)
                \<lparr>products := enrichEffect ev (products s), enriched := 0\<rparr>
      in case enrichResult ev of
           Inr n \<Rightarrow> s1\<lparr>enriched := n\<rparr>
         | Inl e \<Rightarrow> pushError ''ai_content'' e s1)"

definition stage3 :: "env \<Rightarrow> stmt" where
  "stage3 ev = seqM
     [step (logPush ''info'' ''Stage 3: AI content generation''),
      saveRun ev,
      step (tryEnrich ev),
      step (\<lambda>s. logPush ''info'' (''Stage 3 complete: '' @ fmtNum ev (int (enriched s))
                  @ '' products enriched with AI content'') s),
      saveRun ev]"

subsection \<open>Stage 4: validation (not wrapped in try/catch)\<close>

definition validation :: "env \<Rightarrow> stmt" where
  "validation ev s =
     (case findFails ev 4 of
        Some e \<Rightarrow> (Some e, s)
      | None \<Rightarrow>
          (case validationStage (fmtFixed1 ev) (productSaveFails ev 4) (runId (run s))
                  (maxProducts (run s)) (products s) of
             (err, st, v, r) \<Rightarrow> (err, s\<lparr>products := st, validated := v, rejected := r\<rparr>)))"

definition stage4 :: "env \<Rightarrow> stmt" where
  "stage4 ev = seqM
     [step (logPush ''info'' ''Stage 4: Validation & auto-approval''),
      saveRun ev,
      validation ev,
      step (\<lambda>s. s\<lparr>run := (run s)\<lparr>results := (results (run s))
                  \<lparr>productsValidated := validated s, productsRejected := rejected s\<rparr>\<rparr>\<rparr>),
      step (\<lambda>s. logPush ''info'' (''Stage 4 complete: '' @ fmtNum ev (int (validated s))
                  @ '' approved, '' @ fmtNum ev (int (rejected s)) @ '' rejected'') s),
      saveRun ev]"

subsection \<open>Stage 5: WooCommerce listing\<close>

text \<open>\<open>{'pipeline.approved': true, woocommerceProductId: {$exists: false}, isActive: true}\<close>.\<close>

definition listingQuery :: "product \<Rightarrow> bool" where
  "listingQuery p = (pl_approved p \<and> woocommerceProductId p = Undefined \<and> isActive p)"

text \<open>One iteration: everything, the save included, is inside \<open>try\<close>.\<close>

definition listOne :: "env \<Rightarrow> nat \<times> product \<Rightarrow> pstate \<Rightarrow> pstate" where
  "listOne ev ip s =
     (let (i, p) = ip; s1 = callOut (WooCreate i) s in
      case wooResult ev i of
        Inl e \<Rightarrow> pushError ''woocommerce_listing'' (title p @ '': '' @ e) s1
      | Inr wooId \<Rightarrow>
          (case productSaveFails ev 5 i of
             Some e \<Rightarrow> pushError ''woocommerce_listing'' (title p @ '': '' @ e) s1
           | None \<Rightarrow> s1\<lparr>products := (products s1)[i := p\<lparr>woocommerceProductId := Val wooId\<rparr>],
                        listed := listed s1 + 1\<rparr>))"

fun listingLoop :: "env \<Rightarrow> (nat \<times> product) list \<Rightarrow> pstate \<Rightarrow> pstate" where
  "listingLoop ev [] s = s"
| "listingLoop ev (ip # ps) s = listingLoop ev ps (listOne ev ip s)"

definition listing :: "env \<Rightarrow> stmt" where
  "listing ev s =
     (case findFails ev 5 of
        Some e \<Rightarrow> (Some e, s)
      | None \<Rightarrow>
          (None, listingLoop ev
                   (take (limitOr (maxProducts (run s)) 20) (findDocs listingQuery (products s)))
                   (s\<lparr>listed := 0\<rparr>)))"

definition stage5 :: "env \<Rightarrow> stmt" where
  "stage5 ev = seqM
     [step (logPush ''info'' ''Stage 5: WooCommerce listing''),
      saveRun ev,
      listing ev,
      step (\<lambda>s. s\<lparr>run := (run s)\<lparr>results := (results (run s))
                  \<lparr>productsListed := listed s\<rparr>\<rparr>\<rparr>),
      step (\<lambda>s. logPush ''info'' (''Stage 5 complete: '' @ fmtNum ev (int (listed s))
                  @ '' products listed on WooCommerce'') s),
      saveRun ev]"

subsection \<open>Stage 6: Airtable sync\<close>

definition tryAirtable :: "env \<Rightarrow> pstate \<Rightarrow> pstate" where
  "tryAirtable ev s =
     (case airtableResult ev of
        None \<Rightarrow> callOut (AirtableSync 50) s
      | Some e \<Rightarrow> pushError ''airtable_sync'' e (callOut (AirtableSync 50) s))"

definition stage6 :: "env \<Rightarrow> stmt" where
  "stage6 ev = seqM
     [step (logPush ''info'' ''Stage 6: Syncing to Airtable''),
      saveRun ev,
      step (tryAirtable ev)]"


subsection \<open>Completion, auto-list sweep and notification\<close>

text \<open>\<open>Math.round(ms / 1000)\<close>.\<close>

definition roundSeconds :: "int \<Rightarrow> int" where
  "roundSeconds ms = (ms + 500) div 1000"

definition complete :: "env \<Rightarrow> stmt" where
  "complete ev = seqM
     [step (\<lambda>s. s\<lparr>run := (run s)\<lparr>r_status := Completed, completedAt := Some (endTime ev),
                     durationMs := Some (endTime ev - startTime ev)\<rparr>\<rparr>),
      step (logPush ''info'' (''Pipeline completed in ''
              @ fmtNum ev (roundSeconds (endTime ev - startTime ev)) @ ''s'')),
      saveRun ev]"

text \<open>
  The auto-list query: active, priced, and \<open>status\<close> missing, \<open>null\<close>, empty, \<open>draft\<close>,
  \<open>discovered\<close> or \<open>analyzed\<close>.
\<close>

definition autoListQuery :: "product \<Rightarrow> bool" where
  "autoListQuery p =
     (isActive p \<and> (case sellingPriceAud p of Val x \<Rightarrow> x > 0 | _ \<Rightarrow> False)
      \<and> (case status p of
            Undefined \<Rightarrow> True | Null \<Rightarrow> True
          | Val v \<Rightarrow> v \<in> set [[], ''draft'', ''discovered'', ''analyzed'']))"

text \<open>
  What the sweep writes into a product before saving it; \<open>Math.round(x * 1.35)\<close> is
  computed on reals. The sweep and its query use \<open>status\<close> and \<open>shopifyStatus\<close> as fields
  of the document, and so does this model: the document put back into \<open>products\<close> is the
  one the loop holds after its three writes. The Product schema of the repository
  (\<open>models/Product.js\<close>) declares neither of the two paths; of the three writes, only
  \<open>comparePriceAud\<close> is a declared path.
\<close>

definition markListed :: "product \<Rightarrow> product" where
  "markListed p =
     p\<lparr>status := Val ''listed'', shopifyStatus := Val ''active'',
       comparePriceAud :=
         (if \<not> truthyNum (comparePriceAud p) \<and> truthyNum (sellingPriceAud p)
          then (case sellingPriceAud p of
                  Val x \<Rightarrow> Val (of_int \<lfloor>x * 135 / 100 + 1 / 2\<rfloor>)
                | other \<Rightarrow> comparePriceAud p)
          else comparePriceAud p)\<rparr>"

text \<open>
  The sweep's loop inside its own \<open>try\<close>: the first failing \<open>p.save()\<close> ends it. The
  result carries the number of products listed so far.
\<close>

fun autoListLoop ::
  "env \<Rightarrow> (nat \<times> product) list \<Rightarrow> nat \<Rightarrow> pstate \<Rightarrow> string option \<times> nat \<times> pstate" where
  "autoListLoop ev [] autoListed s = (None, autoListed, s)"
| "autoListLoop ev ((i, p) # ps) autoListed s =
     (case productSaveFails ev 7 i of
        Some e \<Rightarrow> (Some e, autoListed, s)
      | None \<Rightarrow> autoListLoop ev ps (autoListed + 1) (s\<lparr>products := (products s)[i := markListed p]\<rparr>))"

text \<open>The whole \<open>try { ... } catch (autoErr) { logger.warn(...) }\<close> block; it never throws.\<close>

definition autoList :: "env \<Rightarrow> pstate \<Rightarrow> pstate" where
  "autoList ev s =
     (case findFails ev 7 of
        Some e \<Rightarrow> callOut (Logger ''warn'' ''Auto-list failed'') s
      | None \<Rightarrow>
          (case autoListLoop ev (findDocs autoListQuery (products s)) 0 s of
             (Some e, n, s1) \<Rightarrow> callOut (Logger ''warn'' ''Auto-list failed'') s1
           | (None, n, s1) \<Rightarrow>
               (case saveRun ev (s1\<lparr>run := (run s1)\<lparr>results := (results (run s1))
                                      \<lparr>productsAutoListed := n\<rparr>\<rparr>\<rparr>) of
                  (Some e, s2) \<Rightarrow> callOut (Logger ''warn'' ''Auto-list failed'') s2
                | (None, s2) \<Rightarrow> callOut (Logger ''info'' ''Auto-listed products for storefront'') s2)))"

text \<open>\<open>clawdbotBridge.notify('pipeline_complete', ...)\<close> in its own \<open>try/catch\<close>.\<close>

definition notify :: "env \<Rightarrow> pstate \<Rightarrow> pstate" where
  "notify ev s =
     (case notifyResult ev of
        None \<Rightarrow> callOut (Notify ''pipeline_complete'') s
      | Some e \<Rightarrow> callOut (Logger ''warn'' ''Pipeline notification failed'')
                   (callOut (Notify ''pipeline_complete'') s))"

subsection \<open>executePipeline\<close>

text \<open>The body of the outer \<open>try\<close>.\<close>

definition tryBody :: "env \<Rightarrow> stmt" where
  "tryBody ev = seqM
     [step (\<lambda>s. s\<lparr>run := (run s)\<lparr>r_status := Running, startedAt := Some (startTime ev)\<rparr>\<rparr>),
      step (logPush ''info'' ''Pipeline started''),
      saveRun ev,
      stage1 ev, stage2 ev, stage3 ev, stage4 ev, stage5 ev, stage6 ev,
      complete ev,
      step (autoList ev),
      step (notify ev),
      step (callOut (Logger ''info'' ''Pipeline completed''))]"

text \<open>The state in which \<open>executePipeline(run)\<close> starts, for a run just saved by its trigger.\<close>

definition initial :: "pipelineRun \<Rightarrow> store \<Rightarrow> pstate" where
  "initial r st =
     \<lparr>run = r, dbRun = r, products = st, calls = [], saves = 0, discoveredProducts = [],
      sourced = 0, enriched = 0, validated = 0, rejected = 0, listed = 0\<rparr>"

text \<open>
  \<open>executePipeline\<close>: \<open>Inr ()\<close> when the function returns, \<open>Inl\<close> the error it throws. The
  outer \<open>catch\<close> marks the run failed, logs, saves and rethrows; when that last save
  throws, its error is the one thrown.
\<close>

definition executePipeline :: "env \<Rightarrow> pipelineRun \<Rightarrow> store \<Rightarrow> (string + unit) \<times> pstate" where
  "executePipeline ev r st =
     (case tryBody ev (initial r st) of
        (None, s) \<Rightarrow> (Inr (), s)
      | (Some err, s) \<Rightarrow>
          (case saveRun ev
                  (logPush ''error'' (''Pipeline failed: '' @ err)
                     (s\<lparr>run := (run s)\<lparr>r_status := Failed, completedAt := Some (endTime ev),
                             durationMs := Some (endTime ev - startTime ev)\<rparr>\<rparr>)) of
             (Some err2, s2) \<Rightarrow> (Inl err2, s2)
           | (None, s2) \<Rightarrow> (Inl err, s2)))"

subsection \<open>The auto-list webhook\<close>

text \<open>
  \<open>POST /api/webhooks/auto-list\<close> runs the same sweep and, after saving each product,
  calls \<open>marketing.onProductLive(p)\<close> inside a \<open>try/catch\<close> (\<open>liveFails i\<close> is the error it
  throws for product \<open>i\<close>). A failing save ends the request with status 500.
\<close>

fun webhookLoop ::
  "env \<Rightarrow> (nat \<Rightarrow> string option) \<Rightarrow> (nat \<times> product) list \<Rightarrow> nat \<Rightarrow> store \<times> call list
     \<Rightarrow> string option \<times> nat \<times> store \<times> call list" where
  "webhookLoop ev liveFails [] n acc = (None, n, acc)"
| "webhookLoop ev liveFails ((i, p) # ps) n (st, cs) =
     (case productSaveFails ev 7 i of
        Some e \<Rightarrow> (Some e, n, st, cs)
      | None \<Rightarrow>
          webhookLoop ev liveFails ps (n + 1)
            (st[i := (markListed p)\<lparr>isActive := True\<rparr>],
             cs @ [OnProductLive i]
                @ (case liveFails i of None \<Rightarrow> [] | Some e \<Rightarrow> [Logger ''warn'' ''Marketing hook failed''])))"

definition autoListWebhook ::
  "env \<Rightarrow> (nat \<Rightarrow> string option) \<Rightarrow> store \<Rightarrow> (string + nat) \<times> store \<times> call list" where
  "autoListWebhook ev liveFails st =
     (case findFails ev 7 of
        Some e \<Rightarrow> (Inl e, st, [Logger ''error'' ''Auto-list webhook error''])
      | None \<Rightarrow>
          (case webhookLoop ev liveFails (findDocs autoListQuery st) 0 (st, []) of
             (Some e, n, st1, cs) \<Rightarrow> (Inl e, st1, cs @ [Logger ''error'' ''Auto-list webhook error''])
           | (None, n, st1, cs) \<Rightarrow> (Inr n, st1, cs @ [Logger ''info'' ''Auto-list webhook''])))"


section \<open>Stage isolation\<close>

text \<open>The calls to providers among the calls made (logger calls left out).\<close>

definition providerCalls :: "call list \<Rightarrow> call list" where
  "providerCalls cs = filter (\<lambda>c. case c of Logger l m \<Rightarrow> False | _ \<Rightarrow> True) cs"

text \<open>The documents the loop of stage 1 adds to the Product collection.\<close>

fun savedDocs :: "env \<Rightarrow> nat \<Rightarrow> dproduct list \<Rightarrow> product list" where
  "savedDocs ev k [] = []"
| "savedDocs ev k (d # ds) =
     (case newProduct d of
        None \<Rightarrow> []
      | Some doc \<Rightarrow> (case productSaveFails ev 1 k of Some e \<Rightarrow> [] | None \<Rightarrow> [doc]))
     @ savedDocs ev (k + 1) ds"

text \<open>The entries the \<open>catch\<close> of the listing loop pushes for a list of approved products.\<close>

fun listingErrors :: "env \<Rightarrow> (nat \<times> product) list \<Rightarrow> errEntry list" where
  "listingErrors ev [] = []"
| "listingErrors ev ((i, p) # ps) =
     (case wooResult ev i of
        Inl e \<Rightarrow> [\<lparr>stage = ''woocommerce_listing'', e_message = title p @ '': '' @ e\<rparr>]
      | Inr w \<Rightarrow>
          (case productSaveFails ev 5 i of
             Some e \<Rightarrow> [\<lparr>stage = ''woocommerce_listing'', e_message = title p @ '': '' @ e\<rparr>]
           | None \<Rightarrow> []))
     @ listingErrors ev ps"

text \<open>The part of the state the stage lemmas follow.\<close>

definition view :: "pstate \<Rightarrow> runStatus \<times> errEntry list \<times> call list \<times> store \<times> string \<times> nat option" where
  "view s = (r_status (run s), errors (results (run s)), providerCalls (calls s), products s,
             runId (run s), maxProducts (run s))"

text \<open>The Product collection when stage 4 starts, and the products stage 5 then loops over.\<close>

definition storeAtValidation :: "env \<Rightarrow> store \<Rightarrow> store" where
  "storeAtValidation ev st =
     enrichEffect ev (sourceEffect ev
       (st @ savedDocs ev 0 (case scanResult ev of Inl e \<Rightarrow> [] | Inr ps \<Rightarrow> ps)))"

definition approvedForListing :: "env \<Rightarrow> pipelineRun \<Rightarrow> store \<Rightarrow> (nat \<times> product) list" where
  "approvedForListing ev r st =
     take (limitOr (maxProducts r) 20)
       (findDocs listingQuery
          (fst (snd (validationStage (fmtFixed1 ev) (productSaveFails ev 4) (runId r)
                       (maxProducts r) (storeAtValidation ev st)))))"

subsection \<open>Every stage under working persistence\<close>

lemma seqM_append:
  "seqM (fs @ gs) s = (case seqM fs s of (Some e, s') \<Rightarrow> (Some e, s') | (None, s') \<Rightarrow> seqM gs s')"
  by (induction fs arbitrary: s) (auto split: prod.splits option.splits)

lemma saveRun_ok:
  "\<forall>k. runSaveFails ev k = None \<Longrightarrow> saveRun ev s = (None, s\<lparr>dbRun := run s, saves := saves s + 1\<rparr>)"
  by (simp add: saveRun_def)

lemma saveDiscovered_proj:
  "run (saveDiscovered ev k ds s) = run s"
  "dbRun (saveDiscovered ev k ds s) = dbRun s"
  "saves (saveDiscovered ev k ds s) = saves s"
  "products (saveDiscovered ev k ds s) = products s @ savedDocs ev k ds"
  "providerCalls (calls (saveDiscovered ev k ds s)) = providerCalls (calls s)"
  by (induction ds arbitrary: k s)
     (auto simp: callOut_def providerCalls_def split: option.splits)

lemma providerCalls_simps:
  "providerCalls (cs @ ds) = providerCalls cs @ providerCalls ds"
  "providerCalls [] = []"
  "providerCalls (Logger l m # cs) = providerCalls cs"
  "providerCalls (TrendScan # cs) = TrendScan # providerCalls cs"
  "providerCalls (AutoSource n # cs) = AutoSource n # providerCalls cs"
  "providerCalls (BulkEnrich n # cs) = BulkEnrich n # providerCalls cs"
  "providerCalls (WooCreate n # cs) = WooCreate n # providerCalls cs"
  "providerCalls (AirtableSync n # cs) = AirtableSync n # providerCalls cs"
  "providerCalls (Notify m # cs) = Notify m # providerCalls cs"
  "providerCalls (OnProductLive n # cs) = OnProductLive n # providerCalls cs"
  by (simp_all add: providerCalls_def)

lemma stage1_ok:
  assumes "\<forall>k. runSaveFails ev k = None"
  shows "fst (stage1 ev s) = None \<and>
     view (snd (stage1 ev s)) =
       (r_status (run s),
        errors (results (run s))
          @ (case scanResult ev of Inl e \<Rightarrow> [\<lparr>stage = ''trend_discovery'', e_message = e\<rparr>] | Inr ps \<Rightarrow> []),
        providerCalls (calls s) @ [TrendScan],
        products s @ savedDocs ev 0 (case scanResult ev of Inl e \<Rightarrow> [] | Inr ps \<Rightarrow> ps),
        runId (run s), maxProducts (run s))"
  using assms
  by (cases "scanResult ev")
     (simp_all add: stage1_def step_def saveRun_ok tryScan_def saveDiscovered_proj view_def
        logPush_def pushError_def callOut_def Let_def providerCalls_simps)

lemma stage2_ok:
  assumes "\<forall>k. runSaveFails ev k = None"
  shows "fst (stage2 ev s) = None \<and>
     view (snd (stage2 ev s)) =
       (r_status (run s),
        errors (results (run s))
          @ (case sourceResult ev of Inl e \<Rightarrow> [\<lparr>stage = ''supplier_sourcing'', e_message = e\<rparr>] | Inr n \<Rightarrow> []),
        providerCalls (calls s) @ [AutoSource (limitOr (maxProducts (run s)) 20)],
        sourceEffect ev (products s),
        runId (run s), maxProducts (run s))"
  using assms
  by (cases "sourceResult ev")
     (simp_all add: stage2_def step_def saveRun_ok trySource_def view_def
        logPush_def pushError_def callOut_def Let_def providerCalls_simps)

lemma stage3_ok:
  assumes "\<forall>k. runSaveFails ev k = None"
  shows "fst (stage3 ev s) = None \<and>
     view (snd (stage3 ev s)) =
       (r_status (run s),
        errors (results (run s))
          @ (case enrichResult ev of Inl e \<Rightarrow> [\<lparr>stage = ''ai_content'', e_message = e\<rparr>] | Inr n \<Rightarrow> []),
        providerCalls (calls s) @ [BulkEnrich (limitOr (maxProducts (run s)) 15)],
        enrichEffect ev (products s),
        runId (run s), maxProducts (run s))"
  using assms
  by (cases "enrichResult ev")
     (simp_all add: stage3_def step_def saveRun_ok tryEnrich_def view_def
        logPush_def pushError_def callOut_def Let_def providerCalls_simps)

lemma stage4_ok:
  assumes "\<forall>k. runSaveFails ev k = None" and "findFails ev 4 = None"
    and "fst (validationStage (fmtFixed1 ev) (productSaveFails ev 4) (runId (run s))
                  (maxProducts (run s)) (products s)) = None"
  shows "fst (stage4 ev s) = None \<and>
     view (snd (stage4 ev s)) =
       (r_status (run s), errors (results (run s)), providerCalls (calls s),
        fst (snd (validationStage (fmtFixed1 ev) (productSaveFails ev 4) (runId (run s))
                  (maxProducts (run s)) (products s))),
        runId (run s), maxProducts (run s))"
proof -
  obtain err st v r where vs: "validationStage (fmtFixed1 ev) (productSaveFails ev 4) (runId (run s))
                  (maxProducts (run s)) (products s) = (err, st, v, r)"
    by (metis prod_cases4)
  with assms(3) have e: "err = None" by simp
  show ?thesis
    using assms(1,2)
    by (simp add: stage4_def step_def saveRun_ok validation_def view_def logPush_def vs e)
qed


lemma listOne_proj:
  "r_status (run (listOne ev ip s)) = r_status (run s)"
  "runId (run (listOne ev ip s)) = runId (run s)"
  "maxProducts (run (listOne ev ip s)) = maxProducts (run s)"
  "dbRun (listOne ev ip s) = dbRun s"
  "saves (listOne ev ip s) = saves s"
  "errors (results (run (listOne ev ip s))) = errors (results (run s)) @ listingErrors ev [ip]"
  "providerCalls (calls (listOne ev ip s)) = providerCalls (calls s) @ [WooCreate (fst ip)]"
  by (cases ip; cases "wooResult ev (fst ip)"; cases "productSaveFails ev 5 (fst ip)";
      simp add: listOne_def callOut_def pushError_def Let_def providerCalls_simps)+

lemma listingErrors_Cons: "listingErrors ev (ip # ps) = listingErrors ev [ip] @ listingErrors ev ps"
  by (cases ip) simp

lemma listingLoop_proj:
  "r_status (run (listingLoop ev ps s)) = r_status (run s)"
  "runId (run (listingLoop ev ps s)) = runId (run s)"
  "maxProducts (run (listingLoop ev ps s)) = maxProducts (run s)"
  "dbRun (listingLoop ev ps s) = dbRun s"
  "saves (listingLoop ev ps s) = saves s"
  "errors (results (run (listingLoop ev ps s))) = errors (results (run s)) @ listingErrors ev ps"
  "providerCalls (calls (listingLoop ev ps s)) = providerCalls (calls s) @ map (WooCreate \<circ> fst) ps"
proof (induction ps arbitrary: s)
  case Nil
  { case 1 show ?case by simp }
  { case 2 show ?case by simp }
  { case 3 show ?case by simp }
  { case 4 show ?case by simp }
  { case 5 show ?case by simp }
  { case 6 show ?case by simp }
  { case 7 show ?case by simp }
next
  case (Cons ip ps)
  { case 1 show ?case by (simp add: Cons.IH listOne_proj) }
  { case 2 show ?case by (simp add: Cons.IH listOne_proj) }
  { case 3 show ?case by (simp add: Cons.IH listOne_proj) }
  { case 4 show ?case by (simp add: Cons.IH listOne_proj) }
  { case 5 show ?case by (simp add: Cons.IH listOne_proj) }
  { case 6 show ?case using listingErrors_Cons [of ev ip ps] by (simp add: Cons.IH listOne_proj) }
  { case 7 show ?case by (simp add: Cons.IH listOne_proj) }
qed

lemma stage5_ok:
  assumes "\<forall>k. runSaveFails ev k = None" and "findFails ev 5 = None"
  shows "fst (stage5 ev s) = None \<and>
     r_status (run (snd (stage5 ev s))) = r_status (run s) \<and>
     errors (results (run (snd (stage5 ev s)))) = errors (results (run s))
        @ listingErrors ev (take (limitOr (maxProducts (run s)) 20) (findDocs listingQuery (products s))) \<and>
     providerCalls (calls (snd (stage5 ev s))) = providerCalls (calls s)
        @ map (WooCreate \<circ> fst) (take (limitOr (maxProducts (run s)) 20) (findDocs listingQuery (products s)))"
  using assms
  by (simp add: stage5_def step_def saveRun_ok listing_def listingLoop_proj logPush_def)

lemma stage6_ok:
  assumes "\<forall>k. runSaveFails ev k = None"
  shows "fst (stage6 ev s) = None \<and>
     r_status (run (snd (stage6 ev s))) = r_status (run s) \<and>
     errors (results (run (snd (stage6 ev s)))) = errors (results (run s))
        @ (case airtableResult ev of Some e \<Rightarrow> [\<lparr>stage = ''airtable_sync'', e_message = e\<rparr>] | None \<Rightarrow> []) \<and>
     providerCalls (calls (snd (stage6 ev s))) = providerCalls (calls s) @ [AirtableSync 50]"
  using assms
  by (cases "airtableResult ev")
     (simp_all add: stage6_def step_def saveRun_ok tryAirtable_def logPush_def pushError_def
        callOut_def providerCalls_simps)

lemma autoListLoop_proj:
  "autoListLoop ev ps n s = (e, m, s') \<Longrightarrow>
     run s' = run s \<and> dbRun s' = dbRun s \<and> calls s' = calls s \<and> saves s' = saves s"
  by (induction ps arbitrary: n s) (auto split: option.splits)

lemma autoList_proj:
  "r_status (run (autoList ev s)) = r_status (run s)"
  "errors (results (run (autoList ev s))) = errors (results (run s))"
  "providerCalls (calls (autoList ev s)) = providerCalls (calls s)"
  "r_status (run s) = Completed \<Longrightarrow> r_status (dbRun s) = Completed
     \<Longrightarrow> r_status (dbRun (autoList ev s)) = Completed"
proof -
  obtain e n s1 where l: "autoListLoop ev (findDocs autoListQuery (products s)) 0 s = (e, n, s1)"
    by (metis prod_cases3)
  note p = autoListLoop_proj [OF l]
  show "r_status (run (autoList ev s)) = r_status (run s)"
    using p by (simp add: autoList_def l saveRun_def callOut_def split: option.splits)
  show "errors (results (run (autoList ev s))) = errors (results (run s))"
    using p by (simp add: autoList_def l saveRun_def callOut_def split: option.splits)
  show "providerCalls (calls (autoList ev s)) = providerCalls (calls s)"
    using p by (simp add: autoList_def l saveRun_def callOut_def providerCalls_simps split: option.splits)
  show "r_status (run s) = Completed \<Longrightarrow> r_status (dbRun s) = Completed
     \<Longrightarrow> r_status (dbRun (autoList ev s)) = Completed"
    using p by (simp add: autoList_def l saveRun_def callOut_def split: option.splits)
qed

lemma notify_proj:
  "run (notify ev s) = run s" "dbRun (notify ev s) = dbRun s"
  "providerCalls (calls (notify ev s)) = providerCalls (calls s) @ [Notify ''pipeline_complete'']"
  by (simp_all add: notify_def callOut_def providerCalls_simps split: option.splits)


lemma complete_ok:
  assumes "\<forall>k. runSaveFails ev k = None"
  shows "fst (complete ev s) = None \<and>
     r_status (run (snd (complete ev s))) = Completed \<and>
     r_status (dbRun (snd (complete ev s))) = Completed \<and>
     errors (results (run (snd (complete ev s)))) = errors (results (run s)) \<and>
     providerCalls (calls (snd (complete ev s))) = providerCalls (calls s)"
  using assms by (simp add: complete_def step_def saveRun_ok logPush_def)

lemma complete_partial:
  "complete ev s = (None, s') \<Longrightarrow> r_status (run s') = Completed"
  by (auto simp: complete_def step_def saveRun_def logPush_def split: option.splits)

lemma stage5_products_nil:
  assumes "\<forall>k. runSaveFails ev k = None" and "findFails ev 5 = None"
    and "take (limitOr (maxProducts (run s)) 20) (findDocs listingQuery (products s)) = []"
  shows "products (snd (stage5 ev s)) = products s"
  using assms(1,2)
  by (simp add: stage5_def step_def saveRun_ok listing_def logPush_def assms(3))

lemma stage6_products:
  assumes "\<forall>k. runSaveFails ev k = None"
  shows "products (snd (stage6 ev s)) = products s"
  using assms
  by (cases "airtableResult ev")
     (simp_all add: stage6_def step_def saveRun_ok tryAirtable_def logPush_def pushError_def
        callOut_def)

lemma complete_products:
  assumes "\<forall>k. runSaveFails ev k = None"
  shows "products (snd (complete ev s)) = products s"
  using assms by (simp add: complete_def step_def saveRun_ok logPush_def)

lemma autoList_single:
  assumes "\<forall>k. runSaveFails ev k = None" and "findFails ev 7 = None"
    and "productSaveFails ev 7 i = None"
    and "findDocs autoListQuery (products s) = [(i, p)]"
  shows "productsAutoListed (results (run (autoList ev s))) = 1
     \<and> products (autoList ev s) = (products s)[i := markListed p]"
  using assms(1,2,3) by (simp add: autoList_def saveRun_ok callOut_def assms(4))

lemma pairI: "fst p = a \<Longrightarrow> p = (a, snd p)"
  by (cases p) simp

lemma tryBody_ok:
  assumes saves: "\<forall>k. runSaveFails ev k = None"
    and f4: "findFails ev 4 = None" and f5: "findFails ev 5 = None"
    and valid: "fst (validationStage (fmtFixed1 ev) (productSaveFails ev 4) (runId r)
                  (maxProducts r) (storeAtValidation ev st)) = None"
  shows "fst (tryBody ev (initial r st)) = None
     \<and> r_status (run (snd (tryBody ev (initial r st)))) = Completed
     \<and> r_status (dbRun (snd (tryBody ev (initial r st)))) = Completed
     \<and> errors (results (run (snd (tryBody ev (initial r st))))) =
         errors (results r)
         @ (case scanResult ev of Inl e \<Rightarrow> [\<lparr>stage = ''trend_discovery'', e_message = e\<rparr>] | Inr ps \<Rightarrow> [])
         @ (case sourceResult ev of Inl e \<Rightarrow> [\<lparr>stage = ''supplier_sourcing'', e_message = e\<rparr>] | Inr n \<Rightarrow> [])
         @ (case enrichResult ev of Inl e \<Rightarrow> [\<lparr>stage = ''ai_content'', e_message = e\<rparr>] | Inr n \<Rightarrow> [])
         @ listingErrors ev (approvedForListing ev r st)
         @ (case airtableResult ev of Some e \<Rightarrow> [\<lparr>stage = ''airtable_sync'', e_message = e\<rparr>] | None \<Rightarrow> [])
     \<and> providerCalls (calls (snd (tryBody ev (initial r st)))) =
         [TrendScan, AutoSource (limitOr (maxProducts r) 20), BulkEnrich (limitOr (maxProducts r) 15)]
         @ map (WooCreate \<circ> fst) (approvedForListing ev r st)
         @ [AirtableSync 50, Notify ''pipeline_complete'']
     \<and> (\<exists>s7. snd (tryBody ev (initial r st))
               = callOut (Logger ''info'' ''Pipeline completed'') (notify ev (autoList ev s7))
             \<and> (approvedForListing ev r st = [] \<longrightarrow>
                  products s7 = fst (snd (validationStage (fmtFixed1 ev) (productSaveFails ev 4)
                                    (runId r) (maxProducts r) (storeAtValidation ev st)))))"
proof -
  define s0 where "s0 = snd (seqM
     [step (\<lambda>s. s\<lparr>run := (run s)\<lparr>r_status := Running, startedAt := Some (startTime ev)\<rparr>\<rparr>),
      step (logPush ''info'' ''Pipeline started''), saveRun ev] (initial r st))"
  have v0: "view s0 = (Running, errors (results r), [], st, runId r, maxProducts r)"
    unfolding s0_def using saves
    by (simp add: step_def saveRun_ok logPush_def initial_def view_def providerCalls_simps)
  have p0: "seqM
     [step (\<lambda>s. s\<lparr>run := (run s)\<lparr>r_status := Running, startedAt := Some (startTime ev)\<rparr>\<rparr>),
      step (logPush ''info'' ''Pipeline started''), saveRun ev] (initial r st) = (None, s0)"
    unfolding s0_def using saves by (simp add: step_def saveRun_ok)
  define s1 where "s1 = snd (stage1 ev s0)"
  have e1: "stage1 ev s0 = (None, s1)"
    unfolding s1_def using stage1_ok [OF saves, of s0] by (simp add: pairI)
  have v1: "view s1 = (Running,
        errors (results r)
          @ (case scanResult ev of Inl e \<Rightarrow> [\<lparr>stage = ''trend_discovery'', e_message = e\<rparr>] | Inr ps \<Rightarrow> []),
        [TrendScan],
        st @ savedDocs ev 0 (case scanResult ev of Inl e \<Rightarrow> [] | Inr ps \<Rightarrow> ps),
        runId r, maxProducts r)"
    unfolding s1_def using stage1_ok [OF saves, of s0] v0 by (simp add: view_def)
  define s2 where "s2 = snd (stage2 ev s1)"
  have e2: "stage2 ev s1 = (None, s2)"
    unfolding s2_def using stage2_ok [OF saves, of s1] by (simp add: pairI)
  have v2: "view s2 = (Running,
        errors (results r)
          @ (case scanResult ev of Inl e \<Rightarrow> [\<lparr>stage = ''trend_discovery'', e_message = e\<rparr>] | Inr ps \<Rightarrow> [])
          @ (case sourceResult ev of Inl e \<Rightarrow> [\<lparr>stage = ''supplier_sourcing'', e_message = e\<rparr>] | Inr n \<Rightarrow> []),
        [TrendScan, AutoSource (limitOr (maxProducts r) 20)],
        sourceEffect ev (st @ savedDocs ev 0 (case scanResult ev of Inl e \<Rightarrow> [] | Inr ps \<Rightarrow> ps)),
        runId r, maxProducts r)"
    unfolding s2_def using stage2_ok [OF saves, of s1] v1 by (simp add: view_def)
  define s3 where "s3 = snd (stage3 ev s2)"
  have e3: "stage3 ev s2 = (None, s3)"
    unfolding s3_def using stage3_ok [OF saves, of s2] by (simp add: pairI)
  have v3: "view s3 = (Running,
        errors (results r)
          @ (case scanResult ev of Inl e \<Rightarrow> [\<lparr>stage = ''trend_discovery'', e_message = e\<rparr>] | Inr ps \<Rightarrow> [])
          @ (case sourceResult ev of Inl e \<Rightarrow> [\<lparr>stage = ''supplier_sourcing'', e_message = e\<rparr>] | Inr n \<Rightarrow> [])
          @ (case enrichResult ev of Inl e \<Rightarrow> [\<lparr>stage = ''ai_content'', e_message = e\<rparr>] | Inr n \<Rightarrow> []),
        [TrendScan, AutoSource (limitOr (maxProducts r) 20), BulkEnrich (limitOr (maxProducts r) 15)],
        storeAtValidation ev st, runId r, maxProducts r)"
    unfolding s3_def storeAtValidation_def using stage3_ok [OF saves, of s2] v2 by (simp add: view_def)
  have q3: "products s3 = storeAtValidation ev st" "runId (run s3) = runId r"
    "maxProducts (run s3) = maxProducts r"
    using v3 by (simp_all add: view_def)
  have valid3: "fst (validationStage (fmtFixed1 ev) (productSaveFails ev 4) (runId (run s3))
                  (maxProducts (run s3)) (products s3)) = None"
    unfolding q3 using valid .
  define s4 where "s4 = snd (stage4 ev s3)"
  have e4: "stage4 ev s3 = (None, s4)"
    unfolding s4_def using stage4_ok [OF saves f4 valid3] by (simp add: pairI)
  have v4: "view s4 = (Running,
        errors (results r)
          @ (case scanResult ev of Inl e \<Rightarrow> [\<lparr>stage = ''trend_discovery'', e_message = e\<rparr>] | Inr ps \<Rightarrow> [])
          @ (case sourceResult ev of Inl e \<Rightarrow> [\<lparr>stage = ''supplier_sourcing'', e_message = e\<rparr>] | Inr n \<Rightarrow> [])
          @ (case enrichResult ev of Inl e \<Rightarrow> [\<lparr>stage = ''ai_content'', e_message = e\<rparr>] | Inr n \<Rightarrow> []),
        [TrendScan, AutoSource (limitOr (maxProducts r) 20), BulkEnrich (limitOr (maxProducts r) 15)],
        fst (snd (validationStage (fmtFixed1 ev) (productSaveFails ev 4) (runId r)
                  (maxProducts r) (storeAtValidation ev st))),
        runId r, maxProducts r)"
    unfolding s4_def using stage4_ok [OF saves f4 valid3] v3 q3 by (simp add: view_def)
  have q4: "take (limitOr (maxProducts (run s4)) 20) (findDocs listingQuery (products s4))
      = approvedForListing ev r st"
    using v4 by (simp add: view_def approvedForListing_def)
  define s5 where "s5 = snd (stage5 ev s4)"
  note t5 = stage5_ok [OF saves f5, of s4, folded s5_def, unfolded q4]
  have e5: "stage5 ev s4 = (None, s5)"
    unfolding s5_def using stage5_ok [OF saves f5, of s4] by (simp add: pairI)
  define s6 where "s6 = snd (stage6 ev s5)"
  note t6 = stage6_ok [OF saves, of s5, folded s6_def]
  have e6: "stage6 ev s5 = (None, s6)"
    unfolding s6_def using stage6_ok [OF saves, of s5] by (simp add: pairI)
  define s7 where "s7 = snd (complete ev s6)"
  note t7 = complete_ok [OF saves, of s6, folded s7_def]
  have e7: "complete ev s6 = (None, s7)"
    unfolding s7_def using complete_ok [OF saves, of s6] by (simp add: pairI)
  define s8 where "s8 = callOut (Logger ''info'' ''Pipeline completed'') (notify ev (autoList ev s7))"
  have rest: "seqM [stage1 ev, stage2 ev, stage3 ev, stage4 ev, stage5 ev, stage6 ev,
      complete ev, step (autoList ev), step (notify ev),
      step (callOut (Logger ''info'' ''Pipeline completed''))] s0 = (None, s8)"
    unfolding s8_def by (simp add: e1 e2 e3 e4 e5 e6 e7 step_def)
  have "tryBody ev (initial r st) = seqM
     ([step (\<lambda>s. s\<lparr>run := (run s)\<lparr>r_status := Running, startedAt := Some (startTime ev)\<rparr>\<rparr>),
       step (logPush ''info'' ''Pipeline started''), saveRun ev]
      @ [stage1 ev, stage2 ev, stage3 ev, stage4 ev, stage5 ev, stage6 ev,
         complete ev, step (autoList ev), step (notify ev),
         step (callOut (Logger ''info'' ''Pipeline completed''))]) (initial r st)"
    unfolding tryBody_def by simp
  then have body: "tryBody ev (initial r st) = (None, s8)"
    unfolding seqM_append p0 using rest by simp
  have st8: "r_status (run s8) = Completed" "r_status (dbRun s8) = Completed"
    unfolding s8_def using t7 by (simp_all add: callOut_def notify_proj autoList_proj)
  have er8: "errors (results (run s8)) = errors (results (run s5))
      @ (case airtableResult ev of Some e \<Rightarrow> [\<lparr>stage = ''airtable_sync'', e_message = e\<rparr>] | None \<Rightarrow> [])"
    unfolding s8_def using t7 t6 by (simp add: callOut_def notify_proj autoList_proj)
  have ca8: "providerCalls (calls s8) = providerCalls (calls s5) @ [AirtableSync 50, Notify ''pipeline_complete'']"
    unfolding s8_def using t7 t6 by (simp add: callOut_def notify_proj autoList_proj providerCalls_simps)
  have er5: "errors (results (run s5)) = errors (results (run s4)) @ listingErrors ev (approvedForListing ev r st)"
    using t5 by simp
  have ca5: "providerCalls (calls s5) = providerCalls (calls s4) @ map (WooCreate \<circ> fst) (approvedForListing ev r st)"
    using t5 by simp
  have er4: "errors (results (run s4)) = errors (results r)
          @ (case scanResult ev of Inl e \<Rightarrow> [\<lparr>stage = ''trend_discovery'', e_message = e\<rparr>] | Inr ps \<Rightarrow> [])
          @ (case sourceResult ev of Inl e \<Rightarrow> [\<lparr>stage = ''supplier_sourcing'', e_message = e\<rparr>] | Inr n \<Rightarrow> [])
          @ (case enrichResult ev of Inl e \<Rightarrow> [\<lparr>stage = ''ai_content'', e_message = e\<rparr>] | Inr n \<Rightarrow> [])"
    and ca4: "providerCalls (calls s4) =
        [TrendScan, AutoSource (limitOr (maxProducts r) 20), BulkEnrich (limitOr (maxProducts r) 15)]"
    using v4 by (simp_all add: view_def)
  have pr7: "approvedForListing ev r st = [] \<longrightarrow>
      products s7 = fst (snd (validationStage (fmtFixed1 ev) (productSaveFails ev 4)
                                    (runId r) (maxProducts r) (storeAtValidation ev st)))"
  proof
    assume nil: "approvedForListing ev r st = []"
    have "products s5 = products s4"
      unfolding s5_def using stage5_products_nil [OF saves f5, of s4] q4 nil by simp
    moreover have "products s6 = products s5"
      unfolding s6_def using stage6_products [OF saves] by simp
    moreover have "products s7 = products s6"
      unfolding s7_def using complete_products [OF saves] by simp
    moreover have "products s4 = fst (snd (validationStage (fmtFixed1 ev) (productSaveFails ev 4)
                                    (runId r) (maxProducts r) (storeAtValidation ev st)))"
      using v4 by (simp add: view_def)
    ultimately show "products s7 = fst (snd (validationStage (fmtFixed1 ev) (productSaveFails ev 4)
                                    (runId r) (maxProducts r) (storeAtValidation ev st)))"
      by simp
  qed
  have sh: "\<exists>s7. snd (tryBody ev (initial r st))
               = callOut (Logger ''info'' ''Pipeline completed'') (notify ev (autoList ev s7))
             \<and> (approvedForListing ev r st = [] \<longrightarrow>
                  products s7 = fst (snd (validationStage (fmtFixed1 ev) (productSaveFails ev 4)
                                    (runId r) (maxProducts r) (storeAtValidation ev st))))"
    unfolding body using pr7 s8_def by auto
  have main: "fst (tryBody ev (initial r st)) = None
     \<and> r_status (run (snd (tryBody ev (initial r st)))) = Completed
     \<and> r_status (dbRun (snd (tryBody ev (initial r st)))) = Completed
     \<and> errors (results (run (snd (tryBody ev (initial r st))))) =
         errors (results r)
         @ (case scanResult ev of Inl e \<Rightarrow> [\<lparr>stage = ''trend_discovery'', e_message = e\<rparr>] | Inr ps \<Rightarrow> [])
         @ (case sourceResult ev of Inl e \<Rightarrow> [\<lparr>stage = ''supplier_sourcing'', e_message = e\<rparr>] | Inr n \<Rightarrow> [])
         @ (case enrichResult ev of Inl e \<Rightarrow> [\<lparr>stage = ''ai_content'', e_message = e\<rparr>] | Inr n \<Rightarrow> [])
         @ listingErrors ev (approvedForListing ev r st)
         @ (case airtableResult ev of Some e \<Rightarrow> [\<lparr>stage = ''airtable_sync'', e_message = e\<rparr>] | None \<Rightarrow> [])
     \<and> providerCalls (calls (snd (tryBody ev (initial r st)))) =
         [TrendScan, AutoSource (limitOr (maxProducts r) 20), BulkEnrich (limitOr (maxProducts r) 15)]
         @ map (WooCreate \<circ> fst) (approvedForListing ev r st)
         @ [AirtableSync 50, Notify ''pipeline_complete'']"
    unfolding body using st8 er8 ca8 er5 ca5 er4 ca4 by simp
  from main sh show ?thesis by blast
qed


lemma tryBody_partial:
  assumes "tryBody ev s = (None, s')"
  shows "r_status (run s') = Completed"
proof -
  let ?pre = "[step (\<lambda>s. s\<lparr>run := (run s)\<lparr>r_status := Running, startedAt := Some (startTime ev)\<rparr>\<rparr>),
       step (logPush ''info'' ''Pipeline started''), saveRun ev,
       stage1 ev, stage2 ev, stage3 ev, stage4 ev, stage5 ev, stage6 ev]"
  let ?post = "[complete ev, step (autoList ev), step (notify ev),
         step (callOut (Logger ''info'' ''Pipeline completed''))]"
  have "tryBody ev s = seqM (?pre @ ?post) s" unfolding tryBody_def by simp
  with assms have a: "(case seqM ?pre s of (Some e, s1) \<Rightarrow> (Some e, s1) | (None, s1) \<Rightarrow> seqM ?post s1)
      = (None, s')"
    unfolding seqM_append by simp
  obtain r1 s1 where p: "seqM ?pre s = (r1, s1)" by (cases "seqM ?pre s")
  with a have b: "seqM ?post s1 = (None, s')" by (cases r1) simp_all
  obtain r2 s2 where c: "complete ev s1 = (r2, s2)" by (cases "complete ev s1")
  with b have r2: "r2 = None" and s': "s' = callOut (Logger ''info'' ''Pipeline completed'') (notify ev (autoList ev s2))"
    by (cases r2; simp add: step_def)+
  from c r2 have "r_status (run s2) = Completed" using complete_partial by simp
  then show ?thesis unfolding s' by (simp add: callOut_def notify_proj autoList_proj)
qed

subsection \<open>The outer catch\<close>

text \<open>When the body of the \<open>try\<close> completes, \<open>executePipeline\<close> returns in the state the
  body left.\<close>

lemma executePipeline_returns:
  assumes "fst (tryBody ev (initial r st)) = None"
  shows "executePipeline ev r st = (Inr (), snd (tryBody ev (initial r st)))"
    and "r_status (run (snd (executePipeline ev r st))) = Completed"
proof -
  from assms have t: "tryBody ev (initial r st) = (None, snd (tryBody ev (initial r st)))"
    by (simp add: pairI)
  show e: "executePipeline ev r st = (Inr (), snd (tryBody ev (initial r st)))"
    unfolding executePipeline_def by (subst t) simp
  show "r_status (run (snd (executePipeline ev r st))) = Completed"
    unfolding e using tryBody_partial [OF t] by simp
qed

text \<open>The state the \<open>catch\<close> block builds before its \<open>run.save()\<close>.\<close>

definition markedFailed :: "env \<Rightarrow> string \<Rightarrow> pstate \<Rightarrow> pstate" where
  "markedFailed ev err s =
     logPush ''error'' (''Pipeline failed: '' @ err)
       (s\<lparr>run := (run s)\<lparr>r_status := Failed, completedAt := Some (endTime ev),
               durationMs := Some (endTime ev - startTime ev)\<rparr>\<rparr>)"

lemma markedFailed_proj:
  "r_status (run (markedFailed ev err s)) = Failed"
  "completedAt (run (markedFailed ev err s)) = Some (endTime ev)"
  "logs (run (markedFailed ev err s)) =
     logs (run s) @ [\<lparr>level = ''error'', message = ''Pipeline failed: '' @ err\<rparr>]"
  "results (run (markedFailed ev err s)) = results (run s)"
  "dbRun (markedFailed ev err s) = dbRun s"
  "saves (markedFailed ev err s) = saves s"
  "products (markedFailed ev err s) = products s"
  "calls (markedFailed ev err s) = calls s"
  by (simp_all add: markedFailed_def logPush_def)

lemma executePipeline_caught:
  assumes "tryBody ev (initial r st) = (Some e, s)"
  shows "executePipeline ev r st =
     (case runSaveFails ev (saves s) of
        None \<Rightarrow> (Inl e, (markedFailed ev e s)\<lparr>dbRun := run (markedFailed ev e s), saves := saves s + 1\<rparr>)
      | Some e2 \<Rightarrow> (Inl e2, (markedFailed ev e s)\<lparr>saves := saves s + 1\<rparr>))"
proof -
  have "executePipeline ev r st =
     (case saveRun ev (markedFailed ev e s) of
        (Some err2, s2) \<Rightarrow> (Inl err2, s2)
      | (None, s2) \<Rightarrow> (Inl e, s2))"
    unfolding executePipeline_def assms markedFailed_def by simp
  then show ?thesis
    by (simp add: saveRun_def markedFailed_proj split: option.splits)
qed

lemma executePipeline_rethrows:
  assumes "tryBody ev (initial r st) = (Some e, s)" and "runSaveFails ev (saves s) = None"
  shows "fst (executePipeline ev r st) = Inl e"
    and "r_status (run (snd (executePipeline ev r st))) = Failed"
    and "dbRun (snd (executePipeline ev r st)) = run (snd (executePipeline ev r st))"
    and "logs (run (snd (executePipeline ev r st))) =
           logs (run s) @ [\<lparr>level = ''error'', message = ''Pipeline failed: '' @ e\<rparr>]"
    and "results (run (snd (executePipeline ev r st))) = results (run s)"
    and "products (snd (executePipeline ev r st)) = products s"
    and "calls (snd (executePipeline ev r st)) = calls s"
  unfolding executePipeline_caught [OF assms(1)] assms(2)
  by (simp_all add: markedFailed_proj)

lemma executePipeline_catch_save_fails:
  assumes "tryBody ev (initial r st) = (Some e, s)" and "runSaveFails ev (saves s) = Some e2"
  shows "fst (executePipeline ev r st) = Inl e2"
    and "r_status (run (snd (executePipeline ev r st))) = Failed"
    and "dbRun (snd (executePipeline ev r st)) = dbRun s"
  unfolding executePipeline_caught [OF assms(1)] assms(2)
  by (simp_all add: markedFailed_proj)

lemma executePipeline_outcome:
  "(fst (executePipeline ev r st) = Inr ()) = (fst (tryBody ev (initial r st)) = None)"
  "(r_status (run (snd (executePipeline ev r st))) = Completed) = (fst (tryBody ev (initial r st)) = None)"
  "(r_status (run (snd (executePipeline ev r st))) = Failed) = (fst (tryBody ev (initial r st)) \<noteq> None)"
proof -
  obtain res s where t: "tryBody ev (initial r st) = (res, s)" by (cases "tryBody ev (initial r st)")
  show "(fst (executePipeline ev r st) = Inr ()) = (fst (tryBody ev (initial r st)) = None)"
    "(r_status (run (snd (executePipeline ev r st))) = Completed) = (fst (tryBody ev (initial r st)) = None)"
    "(r_status (run (snd (executePipeline ev r st))) = Failed) = (fst (tryBody ev (initial r st)) \<noteq> None)"
  proof (atomize (full), cases res)
    case None
    with t have f: "fst (tryBody ev (initial r st)) = None" by simp
    from executePipeline_returns [OF f] f
    show "((fst (executePipeline ev r st) = Inr ()) = (fst (tryBody ev (initial r st)) = None))
      \<and> ((r_status (run (snd (executePipeline ev r st))) = Completed) = (fst (tryBody ev (initial r st)) = None))
      \<and> ((r_status (run (snd (executePipeline ev r st))) = Failed) = (fst (tryBody ev (initial r st)) \<noteq> None))"
      by simp
  next
    case (Some err)
    with t have t': "tryBody ev (initial r st) = (Some err, s)" by simp
    show "((fst (executePipeline ev r st) = Inr ()) = (fst (tryBody ev (initial r st)) = None))
      \<and> ((r_status (run (snd (executePipeline ev r st))) = Completed) = (fst (tryBody ev (initial r st)) = None))
      \<and> ((r_status (run (snd (executePipeline ev r st))) = Failed) = (fst (tryBody ev (initial r st)) \<noteq> None))"
      unfolding executePipeline_caught [OF t'] t'
      by (simp add: markedFailed_proj split: option.splits)
  qed
qed


subsection \<open>Example runs\<close>

definition run0 :: pipelineRun where
  "run0 = \<lparr>runId = ''run-1'', rtype = ''full'', r_status = Running, triggeredBy = ''manual'',
     maxProducts = None, startedAt = Some 1700000000000, completedAt = None, durationMs = None,
     logs = [],
     results = \<lparr>productsDiscovered = 0, productsValidated = 0, productsRejected = 0,
                productsListed = 0, productsAutoListed = 0, errors = []\<rparr>\<rparr>"

text \<open>Every collaborator works and nothing is discovered.\<close>

definition quietEnv :: env where
  "quietEnv = \<lparr>scanResult = Inr [], sourceResult = Inr 0, sourceEffect = (\<lambda>st. st),
     enrichResult = Inr 0, enrichEffect = (\<lambda>st. st), wooResult = (\<lambda>i. Inr ''woo-1''),
     airtableResult = None, notifyResult = None, runSaveFails = (\<lambda>k. None),
     findFails = (\<lambda>n. None), productSaveFails = (\<lambda>n i. None), fmtFixed1 = (\<lambda>x. ''0.0''),
     fmtNum = (\<lambda>n. ''0''), startTime = 1700000000000, endTime = 1700000042000\<rparr>"

text \<open>The first \<open>run.save()\<close> fails and the database is back for the next one.\<close>

definition saveFailsOnce :: env where
  "saveFailsOnce = quietEnv\<lparr>runSaveFails := (\<lambda>k. if k = 0 then Some ''connection lost'' else None)\<rparr>"

text \<open>The database stays away: the first \<open>run.save()\<close> fails, and so does the next one.\<close>

definition storeDown :: env where
  "storeDown = quietEnv\<lparr>runSaveFails :=
     (\<lambda>k. if k = 0 then Some ''connection lost'' else Some ''buffering timed out'')\<rparr>"

lemma tryBody_first_save_fails:
  assumes "runSaveFails ev 0 = Some e"
  shows "tryBody ev (initial r st) =
     (Some e, (initial r st)\<lparr>run := r\<lparr>r_status := Running, startedAt := Some (startTime ev),
         logs := logs r @ [\<lparr>level = ''info'', message = ''Pipeline started''\<rparr>]\<rparr>, saves := 1\<rparr>)"
  by (simp add: tryBody_def step_def logPush_def saveRun_def initial_def assms)

text \<open>
  C2 as stated fails in its last part. The run was stored \<open>running\<close> by its trigger; the
  first \<open>run.save()\<close> in the \<open>try\<close> block throws "connection lost", which escapes every
  stage boundary; the \<open>catch\<close> marks the run failed in memory, but its own \<open>run.save()\<close>
  throws too. The caller gets that second error, not the one that escaped, and the
  stored run is still the \<open>running\<close> one the trigger saved.
\<close>

theorem catch_save_fails_counterexample:
  "fst (tryBody storeDown (initial run0 [])) = Some ''connection lost''
   \<and> fst (executePipeline storeDown run0 []) = Inl ''buffering timed out''
   \<and> fst (executePipeline storeDown run0 []) \<noteq> Inl ''connection lost''
   \<and> r_status (run (snd (executePipeline storeDown run0 []))) = Failed
   \<and> dbRun (snd (executePipeline storeDown run0 [])) = run0
   \<and> r_status (dbRun (snd (executePipeline storeDown run0 []))) = Running"
proof -
  let ?s = "(initial run0 [])\<lparr>run := run0\<lparr>r_status := Running,
         startedAt := Some (startTime storeDown),
         logs := logs run0 @ [\<lparr>level = ''info'', message = ''Pipeline started''\<rparr>]\<rparr>, saves := 1\<rparr>"
  have f: "runSaveFails storeDown 0 = Some ''connection lost''"
    by (simp add: storeDown_def)
  have g: "runSaveFails storeDown (saves ?s) = Some ''buffering timed out''"
    by (simp add: storeDown_def)
  have t: "tryBody storeDown (initial run0 []) = (Some ''connection lost'', ?s)"
    by (rule tryBody_first_save_fails [OF f])
  have a: "fst (tryBody storeDown (initial run0 [])) = Some ''connection lost''"
    unfolding t by simp
  note x = executePipeline_catch_save_fails [OF t g]
  have d: "dbRun ?s = run0" by (simp add: initial_def)
  have e: "r_status run0 = Running" by (simp add: run0_def)
  show ?thesis unfolding a x d e by simp
qed

text \<open>
  C2, amended. When no \<open>run.save()\<close> fails, the two unguarded \<open>Product.find\<close> calls answer
  and the validation loop raises nothing, \<open>executePipeline\<close> returns, whatever the
  providers do: the run ends \<open>completed\<close> in memory and in the store, every stage's
  provider call has been made, and \<open>results.errors\<close> has grown by exactly one entry per
  provider call that threw, named after its stage and in stage order. In every execution,
  the function returns exactly if the \<open>try\<close> block completes, and then the run is
  \<open>completed\<close>; the run is marked \<open>failed\<close> exactly if an error escaped the \<open>try\<close> block.
  That error is the one thrown to the caller, after the run has been stored as failed with
  a log entry naming it, provided the \<open>run.save()\<close> of the \<open>catch\<close> block works; when that
  save fails, its error is thrown instead, and the run is \<open>failed\<close> in memory only: the
  store keeps the document of the last save that worked.
\<close>

theorem stage_failures_are_isolated:
  "((\<forall>k. runSaveFails ev k = None) \<and> findFails ev 4 = None \<and> findFails ev 5 = None
      \<and> fst (validationStage (fmtFixed1 ev) (productSaveFails ev 4) (runId r)
                (maxProducts r) (storeAtValidation ev st)) = None
    \<longrightarrow>
      fst (executePipeline ev r st) = Inr ()
      \<and> r_status (run (snd (executePipeline ev r st))) = Completed
      \<and> r_status (dbRun (snd (executePipeline ev r st))) = Completed
      \<and> errors (results (run (snd (executePipeline ev r st)))) =
          errors (results r)
          @ (case scanResult ev of
               Inl e \<Rightarrow> [\<lparr>stage = ''trend_discovery'', e_message = e\<rparr>] | Inr ps \<Rightarrow> [])
          @ (case sourceResult ev of
               Inl e \<Rightarrow> [\<lparr>stage = ''supplier_sourcing'', e_message = e\<rparr>] | Inr n \<Rightarrow> [])
          @ (case enrichResult ev of
               Inl e \<Rightarrow> [\<lparr>stage = ''ai_content'', e_message = e\<rparr>] | Inr n \<Rightarrow> [])
          @ listingErrors ev (approvedForListing ev r st)
          @ (case airtableResult ev of
               Some e \<Rightarrow> [\<lparr>stage = ''airtable_sync'', e_message = e\<rparr>] | None \<Rightarrow> [])
      \<and> providerCalls (calls (snd (executePipeline ev r st))) =
          [TrendScan, AutoSource (limitOr (maxProducts r) 20),
           BulkEnrich (limitOr (maxProducts r) 15)]
          @ map (WooCreate \<circ> fst) (approvedForListing ev r st)
          @ [AirtableSync 50, Notify ''pipeline_complete''])
   \<and> (fst (executePipeline ev r st) = Inr ()) = (fst (tryBody ev (initial r st)) = None)
   \<and> (r_status (run (snd (executePipeline ev r st))) = Completed)
       = (fst (tryBody ev (initial r st)) = None)
   \<and> (r_status (run (snd (executePipeline ev r st))) = Failed)
       = (fst (tryBody ev (initial r st)) \<noteq> None)
   \<and> (tryBody ev (initial r st) = (Some e, s) \<and> runSaveFails ev (saves s) = None \<longrightarrow>
        fst (executePipeline ev r st) = Inl e
        \<and> r_status (dbRun (snd (executePipeline ev r st))) = Failed
        \<and> dbRun (snd (executePipeline ev r st)) = run (snd (executePipeline ev r st))
        \<and> logs (run (snd (executePipeline ev r st))) =
            logs (run s) @ [\<lparr>level = ''error'', message = ''Pipeline failed: '' @ e\<rparr>]
        \<and> results (run (snd (executePipeline ev r st))) = results (run s)
        \<and> products (snd (executePipeline ev r st)) = products s
        \<and> calls (snd (executePipeline ev r st)) = calls s)
   \<and> (tryBody ev (initial r st) = (Some e, s) \<and> runSaveFails ev (saves s) = Some e2 \<longrightarrow>
        fst (executePipeline ev r st) = Inl e2
        \<and> dbRun (snd (executePipeline ev r st)) = dbRun s)"
proof (intro conjI impI)
  assume h: "(\<forall>k. runSaveFails ev k = None) \<and> findFails ev 4 = None \<and> findFails ev 5 = None
      \<and> fst (validationStage (fmtFixed1 ev) (productSaveFails ev 4) (runId r)
                (maxProducts r) (storeAtValidation ev st)) = None"
  then have saves: "\<forall>k. runSaveFails ev k = None" and f4: "findFails ev 4 = None"
    and f5: "findFails ev 5 = None"
    and valid: "fst (validationStage (fmtFixed1 ev) (productSaveFails ev 4) (runId r)
                (maxProducts r) (storeAtValidation ev st)) = None"
    by blast+
  note t = tryBody_ok [OF saves f4 f5 valid]
  from t have b: "tryBody ev (initial r st) = (None, snd (tryBody ev (initial r st)))"
    by (simp add: pairI)
  have e: "executePipeline ev r st = (Inr (), snd (tryBody ev (initial r st)))"
    unfolding executePipeline_def by (subst b) simp
  show "fst (executePipeline ev r st) = Inr ()" unfolding e by simp
  show "r_status (run (snd (executePipeline ev r st))) = Completed" unfolding e using t by simp
  show "r_status (dbRun (snd (executePipeline ev r st))) = Completed" unfolding e using t by simp
  show "errors (results (run (snd (executePipeline ev r st)))) =
          errors (results r)
          @ (case scanResult ev of
               Inl e \<Rightarrow> [\<lparr>stage = ''trend_discovery'', e_message = e\<rparr>] | Inr ps \<Rightarrow> [])
          @ (case sourceResult ev of
               Inl e \<Rightarrow> [\<lparr>stage = ''supplier_sourcing'', e_message = e\<rparr>] | Inr n \<Rightarrow> [])
          @ (case enrichResult ev of
               Inl e \<Rightarrow> [\<lparr>stage = ''ai_content'', e_message = e\<rparr>] | Inr n \<Rightarrow> [])
          @ listingErrors ev (approvedForListing ev r st)
          @ (case airtableResult ev of
               Some e \<Rightarrow> [\<lparr>stage = ''airtable_sync'', e_message = e\<rparr>] | None \<Rightarrow> [])"
    unfolding e using t by simp
  show "providerCalls (calls (snd (executePipeline ev r st))) =
          [TrendScan, AutoSource (limitOr (maxProducts r) 20),
           BulkEnrich (limitOr (maxProducts r) 15)]
          @ map (WooCreate \<circ> fst) (approvedForListing ev r st)
          @ [AirtableSync 50, Notify ''pipeline_complete'']"
    unfolding e using t by simp
next
  show "(fst (executePipeline ev r st) = Inr ()) = (fst (tryBody ev (initial r st)) = None)"
    by (rule executePipeline_outcome)
next
  show "(r_status (run (snd (executePipeline ev r st))) = Completed)
       = (fst (tryBody ev (initial r st)) = None)"
    by (rule executePipeline_outcome)
next
  show "(r_status (run (snd (executePipeline ev r st))) = Failed)
       = (fst (tryBody ev (initial r st)) \<noteq> None)"
    by (rule executePipeline_outcome)
next
  assume a: "tryBody ev (initial r st) = (Some e, s) \<and> runSaveFails ev (saves s) = None"
  then have t: "tryBody ev (initial r st) = (Some e, s)" and sv: "runSaveFails ev (saves s) = None"
    by blast+
  note x = executePipeline_rethrows [OF t sv]
  show "fst (executePipeline ev r st) = Inl e" by (rule x)
  show "r_status (dbRun (snd (executePipeline ev r st))) = Failed" using x(2,3) by simp
  show "dbRun (snd (executePipeline ev r st)) = run (snd (executePipeline ev r st))" by (rule x)
  show "logs (run (snd (executePipeline ev r st))) =
            logs (run s) @ [\<lparr>level = ''error'', message = ''Pipeline failed: '' @ e\<rparr>]" by (rule x)
  show "results (run (snd (executePipeline ev r st))) = results (run s)" by (rule x)
  show "products (snd (executePipeline ev r st)) = products s" by (rule x)
  show "calls (snd (executePipeline ev r st)) = calls s" by (rule x)
next
  assume a: "tryBody ev (initial r st) = (Some e, s) \<and> runSaveFails ev (saves s) = Some e2"
  then have t: "tryBody ev (initial r st) = (Some e, s)" and sv: "runSaveFails ev (saves s) = Some e2"
    by blast+
  note x = executePipeline_catch_save_fails [OF t sv]
  show "fst (executePipeline ev r st) = Inl e2" by (rule x)
  show "dbRun (snd (executePipeline ev r st)) = dbRun s" by (rule x)
qed

text \<open>
  Discovery throws "timeout", everything else works: the run completes with that one
  error entry, and the later stages' providers were all called. The first \<open>run.save()\<close>
  throws "connection lost" and the next one works: that error reaches the caller and the
  run is stored as failed. Both throw: the caller gets the second error and the store
  keeps the run as its trigger saved it.
\<close>

theorem stage_failures_are_isolated_witness:
  "(\<forall>k. runSaveFails (quietEnv\<lparr>scanResult := Inl ''timeout''\<rparr>) k = None)
   \<and> fst (executePipeline (quietEnv\<lparr>scanResult := Inl ''timeout''\<rparr>) run0 []) = Inr ()
   \<and> r_status (run (snd (executePipeline (quietEnv\<lparr>scanResult := Inl ''timeout''\<rparr>) run0 [])))
       = Completed
   \<and> errors (results (run (snd (executePipeline (quietEnv\<lparr>scanResult := Inl ''timeout''\<rparr>) run0 []))))
       = [\<lparr>stage = ''trend_discovery'', e_message = ''timeout''\<rparr>]
   \<and> providerCalls (calls (snd (executePipeline (quietEnv\<lparr>scanResult := Inl ''timeout''\<rparr>) run0 [])))
       = [TrendScan, AutoSource 20, BulkEnrich 15, AirtableSync 50, Notify ''pipeline_complete'']
   \<and> fst (tryBody saveFailsOnce (initial run0 [])) = Some ''connection lost''
   \<and> fst (executePipeline saveFailsOnce run0 []) = Inl ''connection lost''
   \<and> r_status (dbRun (snd (executePipeline saveFailsOnce run0 []))) = Failed
   \<and> logs (dbRun (snd (executePipeline saveFailsOnce run0 []))) =
       [\<lparr>level = ''info'', message = ''Pipeline started''\<rparr>,
        \<lparr>level = ''error'', message = ''Pipeline failed: connection lost''\<rparr>]
   \<and> fst (tryBody storeDown (initial run0 [])) = Some ''connection lost''
   \<and> fst (executePipeline storeDown run0 []) = Inl ''buffering timed out''
   \<and> dbRun (snd (executePipeline storeDown run0 [])) = run0"
proof -
  let ?ev = "quietEnv\<lparr>scanResult := Inl ''timeout''\<rparr>"
  have saves: "\<forall>k. runSaveFails ?ev k = None" by (simp add: quietEnv_def)
  have f: "findFails ?ev 4 = None" "findFails ?ev 5 = None" by (simp_all add: quietEnv_def)
  have st: "storeAtValidation ?ev [] = []" by (simp add: storeAtValidation_def quietEnv_def)
  have vs: "validationStage (fmtFixed1 ?ev) (productSaveFails ?ev 4) (runId run0)
                (maxProducts run0) [] = (None, [], 0, 0)"
    by (simp add: validationStage_def findDocs_def)
  have ap: "approvedForListing ?ev run0 [] = []"
    unfolding approvedForListing_def st vs by (simp add: findDocs_def)
  have c: "scanResult ?ev = Inl ''timeout''" "sourceResult ?ev = Inr 0" "enrichResult ?ev = Inr 0"
    "airtableResult ?ev = None" by (simp_all add: quietEnv_def)
  have r: "errors (results run0) = []" "maxProducts run0 = None" by (simp_all add: run0_def)
  have v: "fst (validationStage (fmtFixed1 ?ev) (productSaveFails ?ev 4) (runId run0)
                (maxProducts run0) (storeAtValidation ?ev [])) = None"
    unfolding st vs by simp
  from stage_failures_are_isolated [of ?ev run0 "[]"] saves f v
  have p1: "fst (executePipeline ?ev run0 []) = Inr ()
      \<and> r_status (run (snd (executePipeline ?ev run0 []))) = Completed
      \<and> errors (results (run (snd (executePipeline ?ev run0 []))))
          = [\<lparr>stage = ''trend_discovery'', e_message = ''timeout''\<rparr>]
      \<and> providerCalls (calls (snd (executePipeline ?ev run0 [])))
          = [TrendScan, AutoSource 20, BulkEnrich 15, AirtableSync 50, Notify ''pipeline_complete'']"
    unfolding ap c r by (simp add: limitOr_def)
  let ?s = "(initial run0 [])\<lparr>run := run0\<lparr>r_status := Running, startedAt := Some 1700000000000,
         logs := [\<lparr>level = ''info'', message = ''Pipeline started''\<rparr>]\<rparr>, saves := 1\<rparr>"
  have o0: "runSaveFails saveFailsOnce 0 = Some ''connection lost''"
    and o1: "runSaveFails saveFailsOnce (saves ?s) = None"
    by (simp_all add: saveFailsOnce_def)
  have d0: "runSaveFails storeDown 0 = Some ''connection lost''"
    and d1: "runSaveFails storeDown (saves ?s) = Some ''buffering timed out''"
    by (simp_all add: storeDown_def)
  have to: "tryBody saveFailsOnce (initial run0 []) = (Some ''connection lost'', ?s)"
    unfolding tryBody_first_save_fails [OF o0] by (simp add: saveFailsOnce_def quietEnv_def run0_def)
  have td: "tryBody storeDown (initial run0 []) = (Some ''connection lost'', ?s)"
    unfolding tryBody_first_save_fails [OF d0] by (simp add: storeDown_def quietEnv_def run0_def)
  from stage_failures_are_isolated [of saveFailsOnce run0 "[]" "''connection lost''" ?s] to o1
  have p2: "fst (executePipeline saveFailsOnce run0 []) = Inl ''connection lost''
      \<and> r_status (dbRun (snd (executePipeline saveFailsOnce run0 []))) = Failed
      \<and> dbRun (snd (executePipeline saveFailsOnce run0 [])) = run (snd (executePipeline saveFailsOnce run0 []))
      \<and> logs (run (snd (executePipeline saveFailsOnce run0 []))) =
           logs (run ?s) @ [\<lparr>level = ''error'', message = ''Pipeline failed: '' @ ''connection lost''\<rparr>]"
    by blast
  then have p2': "logs (dbRun (snd (executePipeline saveFailsOnce run0 []))) =
       [\<lparr>level = ''info'', message = ''Pipeline started''\<rparr>,
        \<lparr>level = ''error'', message = ''Pipeline failed: connection lost''\<rparr>]"
    by simp
  from stage_failures_are_isolated
    [of storeDown run0 "[]" "''connection lost''" ?s "''buffering timed out''"] td d1
  have p3: "fst (executePipeline storeDown run0 []) = Inl ''buffering timed out''
      \<and> dbRun (snd (executePipeline storeDown run0 [])) = dbRun ?s"
    by blast
  then have p3': "dbRun (snd (executePipeline storeDown run0 [])) = run0"
    by (simp add: initial_def)
  have q: "fst (tryBody saveFailsOnce (initial run0 [])) = Some ''connection lost''"
    "fst (tryBody storeDown (initial run0 [])) = Some ''connection lost''"
    unfolding to td by simp_all
  from saves p1 p2 p2' p3 p3' q show ?thesis by blast
qed


section \<open>Marketing hook on completion\<close>

text \<open>The calls of \<open>marketing.onProductLive\<close> among the calls made.\<close>

definition liveCalls :: "call list \<Rightarrow> call list" where
  "liveCalls cs = filter (\<lambda>c. case c of OnProductLive i \<Rightarrow> True | _ \<Rightarrow> False) cs"

text \<open>A statement that leaves those calls as they are, whether it completes or throws.\<close>

definition keepsLive :: "stmt \<Rightarrow> bool" where
  "keepsLive f = (\<forall>s. liveCalls (calls (snd (f s))) = liveCalls (calls s))"

lemma liveCalls_simps:
  "liveCalls (cs @ ds) = liveCalls cs @ liveCalls ds"
  "liveCalls [] = []"
  "liveCalls (Logger l m # cs) = liveCalls cs"
  "liveCalls (TrendScan # cs) = liveCalls cs"
  "liveCalls (AutoSource n # cs) = liveCalls cs"
  "liveCalls (BulkEnrich n # cs) = liveCalls cs"
  "liveCalls (WooCreate n # cs) = liveCalls cs"
  "liveCalls (AirtableSync n # cs) = liveCalls cs"
  "liveCalls (Notify m # cs) = liveCalls cs"
  "liveCalls (OnProductLive n # cs) = OnProductLive n # liveCalls cs"
  by (simp_all add: liveCalls_def)

lemma keepsLive_seqM: "list_all keepsLive fs \<Longrightarrow> keepsLive (seqM fs)"
proof (induction fs)
  case Nil
  then show ?case by (simp add: keepsLive_def)
next
  case (Cons f fs)
  then have f: "keepsLive f" and fs: "keepsLive (seqM fs)" by simp_all
  show ?case
    unfolding keepsLive_def
  proof
    fix s
    obtain r s1 where a: "f s = (r, s1)" by (cases "f s")
    have b: "liveCalls (calls s1) = liveCalls (calls s)"
      using f a unfolding keepsLive_def by (metis snd_conv)
    show "liveCalls (calls (snd (seqM (f # fs) s))) = liveCalls (calls s)"
      using a b fs unfolding keepsLive_def by (cases r) simp_all
  qed
qed

lemma keepsLive_step: "(\<And>s. liveCalls (calls (f s)) = liveCalls (calls s)) \<Longrightarrow> keepsLive (step f)"
  by (simp add: keepsLive_def step_def)

lemma keepsLive_saveRun: "keepsLive (saveRun ev)"
  by (simp add: keepsLive_def saveRun_def split: option.splits)

lemma live_logPush: "liveCalls (calls (logPush l m s)) = liveCalls (calls s)"
  by (simp add: logPush_def)

lemma live_pushError: "liveCalls (calls (pushError l m s)) = liveCalls (calls s)"
  by (simp add: pushError_def)

lemma live_tryScan: "liveCalls (calls (tryScan ev s)) = liveCalls (calls s)"
  by (simp add: tryScan_def callOut_def pushError_def liveCalls_simps Let_def split: sum.splits)

lemma live_saveDiscovered: "liveCalls (calls (saveDiscovered ev k ds s)) = liveCalls (calls s)"
  by (induction ds arbitrary: k s) (auto simp: callOut_def liveCalls_simps split: option.splits)

lemma live_trySource: "liveCalls (calls (trySource ev s)) = liveCalls (calls s)"
  by (simp add: trySource_def callOut_def pushError_def liveCalls_simps Let_def split: sum.splits)

lemma live_tryEnrich: "liveCalls (calls (tryEnrich ev s)) = liveCalls (calls s)"
  by (simp add: tryEnrich_def callOut_def pushError_def liveCalls_simps Let_def split: sum.splits)

lemma live_tryAirtable: "liveCalls (calls (tryAirtable ev s)) = liveCalls (calls s)"
  by (simp add: tryAirtable_def callOut_def pushError_def liveCalls_simps split: option.splits)

lemma live_listOne: "liveCalls (calls (listOne ev ip s)) = liveCalls (calls s)"
  by (cases ip) (simp add: listOne_def callOut_def pushError_def liveCalls_simps Let_def
      split: sum.splits option.splits)

lemma live_listingLoop: "liveCalls (calls (listingLoop ev ps s)) = liveCalls (calls s)"
  by (induction ps arbitrary: s) (simp_all add: live_listOne)

lemma keepsLive_listing: "keepsLive (listing ev)"
  by (simp add: keepsLive_def listing_def live_listingLoop split: option.splits)

lemma keepsLive_validation: "keepsLive (validation ev)"
  by (simp add: keepsLive_def validation_def split: option.splits prod.splits)

lemma live_autoList: "liveCalls (calls (autoList ev s)) = liveCalls (calls s)"
proof -
  obtain e n s1 where l: "autoListLoop ev (findDocs autoListQuery (products s)) 0 s = (e, n, s1)"
    by (metis prod_cases3)
  note p = autoListLoop_proj [OF l]
  show ?thesis
    using p by (simp add: autoList_def l saveRun_def callOut_def liveCalls_simps split: option.splits)
qed

lemma live_notify: "liveCalls (calls (notify ev s)) = liveCalls (calls s)"
  by (simp add: notify_def callOut_def liveCalls_simps split: option.splits)

lemma keepsLive_stages:
  "keepsLive (stage1 ev)" "keepsLive (stage2 ev)" "keepsLive (stage3 ev)" "keepsLive (stage4 ev)"
  "keepsLive (stage5 ev)" "keepsLive (stage6 ev)" "keepsLive (complete ev)"
  unfolding stage1_def stage2_def stage3_def stage4_def stage5_def stage6_def complete_def
  by (rule keepsLive_seqM;
      simp add: keepsLive_step keepsLive_saveRun keepsLive_listing keepsLive_validation
        live_logPush live_tryScan live_saveDiscovered live_trySource live_tryEnrich
        live_tryAirtable)+

lemma keepsLive_tryBody: "keepsLive (tryBody ev)"
  unfolding tryBody_def
  by (rule keepsLive_seqM)
     (simp add: keepsLive_step keepsLive_saveRun keepsLive_stages live_logPush live_autoList
        live_notify callOut_def liveCalls_simps)

lemma executePipeline_never_live:
  "liveCalls (calls (snd (executePipeline ev r st))) = []"
proof -
  obtain res s where t: "tryBody ev (initial r st) = (res, s)" by (cases "tryBody ev (initial r st)")
  have "liveCalls (calls s) = liveCalls (calls (initial r st))"
    using keepsLive_tryBody [of ev] t unfolding keepsLive_def by (metis snd_conv)
  then have s: "liveCalls (calls s) = []" by (simp add: initial_def liveCalls_simps)
  show ?thesis
    using s t
    by (cases res) (simp_all add: executePipeline_def saveRun_def logPush_def split: option.splits)
qed


subsection \<open>A run that auto-lists one product\<close>

lemma candidates_marginItem: "findDocs candidateQuery [marginItem] = [(0, marginItem)]"
  by (simp add: findDocs_def candidateQuery_def marginItem_def)

lemma validation_marginItem: "validationStage (\<lambda>x. ''0.0'') (\<lambda>i. None) ''run-1'' None [marginItem]
   = (None, [marginItem\<lparr>pl_approved := True, pl_runId := ''run-1''\<rparr>], 1, 0)"
  unfolding validationStage_def candidates_marginItem
  by (simp add: limitOr_def validateCandidate_def js_le_def js_lt_def js_ge_def marginItem_def)

lemma listing_marginItem: "findDocs listingQuery [marginItem\<lparr>pl_approved := True, pl_runId := ''run-1''\<rparr>] = []"
  by (simp add: findDocs_def listingQuery_def marginItem_def)

lemma unlisted_after_validation: "findDocs autoListQuery [marginItem\<lparr>pl_approved := True, pl_runId := ''run-1''\<rparr>]
   = [(0, marginItem\<lparr>pl_approved := True, pl_runId := ''run-1''\<rparr>)]"
  by (simp add: findDocs_def autoListQuery_def marginItem_def)

lemma unlisted_marginItem: "findDocs autoListQuery [marginItem] = [(0, marginItem)]"
  by (simp add: findDocs_def autoListQuery_def marginItem_def)

lemma executePipeline_marginItem:
  "fst (executePipeline quietEnv run0 [marginItem]) = Inr ()
   \<and> productsAutoListed (results (run (snd (executePipeline quietEnv run0 [marginItem])))) = 1
   \<and> status (products (snd (executePipeline quietEnv run0 [marginItem])) ! 0) = Val ''listed''
   \<and> providerCalls (calls (snd (executePipeline quietEnv run0 [marginItem]))) =
       [TrendScan, AutoSource 20, BulkEnrich 15, AirtableSync 50, Notify ''pipeline_complete'']"
proof -
  let ?st = "[marginItem\<lparr>pl_approved := True, pl_runId := ''run-1''\<rparr>]"
  have saves: "\<forall>k. runSaveFails quietEnv k = None" by (simp add: quietEnv_def)
  have f: "findFails quietEnv 4 = None" "findFails quietEnv 5 = None" "findFails quietEnv 7 = None"
    "productSaveFails quietEnv 7 0 = None"
    by (simp_all add: quietEnv_def)
  have st: "storeAtValidation quietEnv [marginItem] = [marginItem]"
    by (simp add: storeAtValidation_def quietEnv_def)
  have vs: "validationStage (fmtFixed1 quietEnv) (productSaveFails quietEnv 4) (runId run0)
                (maxProducts run0) [marginItem] = (None, ?st, 1, 0)"
    using validation_marginItem by (simp add: quietEnv_def run0_def)
  have v: "fst (validationStage (fmtFixed1 quietEnv) (productSaveFails quietEnv 4) (runId run0)
                (maxProducts run0) (storeAtValidation quietEnv [marginItem])) = None"
    unfolding st vs by simp
  have ap: "approvedForListing quietEnv run0 [marginItem] = []"
    unfolding approvedForListing_def st vs by (simp add: listing_marginItem)
  note t = tryBody_ok [OF saves f(1,2) v]
  from t obtain s7 where
    sh: "snd (tryBody quietEnv (initial run0 [marginItem]))
          = callOut (Logger ''info'' ''Pipeline completed'') (notify quietEnv (autoList quietEnv s7))"
    and p7: "products s7 = ?st"
    unfolding ap st vs by auto
  have fd: "findDocs autoListQuery (products s7) = [(0, marginItem\<lparr>pl_approved := True, pl_runId := ''run-1''\<rparr>)]"
    unfolding p7 by (rule unlisted_after_validation)
  note al = autoList_single [OF saves f(3) f(4) fd]
  from t have b: "tryBody quietEnv (initial run0 [marginItem])
      = (None, snd (tryBody quietEnv (initial run0 [marginItem])))"
    by (simp add: pairI)
  have e: "executePipeline quietEnv run0 [marginItem]
      = (Inr (), snd (tryBody quietEnv (initial run0 [marginItem])))"
    unfolding executePipeline_def by (subst b) simp
  have c: "scanResult quietEnv = Inr []" "sourceResult quietEnv = Inr 0" "enrichResult quietEnv = Inr 0"
    "airtableResult quietEnv = None" "maxProducts run0 = None"
    by (simp_all add: quietEnv_def run0_def)
  have 1: "fst (executePipeline quietEnv run0 [marginItem]) = Inr ()" unfolding e by simp
  have 2: "productsAutoListed (results (run (snd (executePipeline quietEnv run0 [marginItem])))) = 1"
    unfolding e fst_conv snd_conv sh using al by (simp add: callOut_def notify_proj)
  have "products (snd (executePipeline quietEnv run0 [marginItem]))
      = ?st[0 := markListed (marginItem\<lparr>pl_approved := True, pl_runId := ''run-1''\<rparr>)]"
    unfolding e fst_conv snd_conv sh using al p7
    by (simp add: callOut_def notify_def split: option.splits)
  then have 3: "status (products (snd (executePipeline quietEnv run0 [marginItem])) ! 0) = Val ''listed''"
    by (simp add: markListed_def)
  have 4: "providerCalls (calls (snd (executePipeline quietEnv run0 [marginItem]))) =
       [TrendScan, AutoSource 20, BulkEnrich 15, AirtableSync 50, Notify ''pipeline_complete'']"
    unfolding e snd_conv using t unfolding ap c by (simp add: limitOr_def)
  from 1 2 3 4 show ?thesis by blast
qed

lemma autoListWebhook_marginItem:
  "autoListWebhook quietEnv (\<lambda>i. None) [marginItem]
    = (Inr 1, [(markListed marginItem)\<lparr>isActive := True\<rparr>],
       [OnProductLive 0, Logger ''info'' ''Auto-list webhook''])"
  by (simp add: autoListWebhook_def unlisted_marginItem quietEnv_def)


text \<open>
  C7. No execution of \<open>executePipeline\<close>, whether it returns or throws, calls
  \<open>marketing.onProductLive\<close>. In the run below every collaborator works and the auto-list
  sweep lists one product: the summary notification \<open>pipeline_complete\<close> is sent, but no
  marketing hook is called for the product, whereas the auto-list webhook, running the
  same sweep on the same collection, calls \<open>onProductLive\<close> for it.
\<close>

theorem executePipeline_never_calls_onProductLive:
  "liveCalls (calls (snd (executePipeline ev r st))) = []
   \<and> fst (executePipeline quietEnv run0 [marginItem]) = Inr ()
   \<and> productsAutoListed (results (run (snd (executePipeline quietEnv run0 [marginItem])))) = 1
   \<and> status (products (snd (executePipeline quietEnv run0 [marginItem])) ! 0) = Val ''listed''
   \<and> providerCalls (calls (snd (executePipeline quietEnv run0 [marginItem]))) =
       [TrendScan, AutoSource 20, BulkEnrich 15, AirtableSync 50, Notify ''pipeline_complete'']
   \<and> snd (snd (autoListWebhook quietEnv (\<lambda>i. None) [marginItem]))
       = [OnProductLive 0, Logger ''info'' ''Auto-list webhook'']"
proof -
  have a: "liveCalls (calls (snd (executePipeline ev r st))) = []"
    by (rule executePipeline_never_live)
  have c: "providerCalls (calls (snd (executePipeline quietEnv run0 [marginItem]))) =
       [TrendScan, AutoSource 20, BulkEnrich 15, AirtableSync 50, Notify ''pipeline_complete'']"
    using executePipeline_marginItem by blast
  have b: "fst (executePipeline quietEnv run0 [marginItem]) = Inr ()"
    using executePipeline_marginItem by blast
  have d: "productsAutoListed (results (run (snd (executePipeline quietEnv run0 [marginItem])))) = 1"
    "status (products (snd (executePipeline quietEnv run0 [marginItem])) ! 0) = Val ''listed''"
    using executePipeline_marginItem by blast+
  have e: "snd (snd (autoListWebhook quietEnv (\<lambda>i. None) [marginItem]))
       = [OnProductLive 0, Logger ''info'' ''Auto-list webhook'']"
    unfolding autoListWebhook_marginItem by simp
  from a b c d e show ?thesis by blast
qed


section \<open>Starting a run: admission control\<close>

text \<open>The PipelineRun collection; a run document is identified by its position.\<close>

type_synonym runStore = "pipelineRun list"

definition isActiveRun :: "pipelineRun \<Rightarrow> bool" where
  "isActiveRun r = (r_status r = Queued \<or> r_status r = Running)"

text \<open>\<open>PipelineRun.findOne({status: {$in: ['queued', 'running']}})\<close>.\<close>

definition findActive :: "runStore \<Rightarrow> pipelineRun option" where
  "findActive rs = find isActiveRun rs"

definition activeRuns :: "runStore \<Rightarrow> pipelineRun list" where
  "activeRuns rs = filter isActiveRun rs"

text \<open>\<open>new PipelineRun({...})\<close> with empty logs and results.\<close>

definition newRun ::
  "string \<Rightarrow> string \<Rightarrow> runStatus \<Rightarrow> string \<Rightarrow> nat option \<Rightarrow> int option \<Rightarrow> pipelineRun" where
  "newRun uuid ty st by cfg started =
     \<lparr>runId = uuid, rtype = ty, r_status = st, triggeredBy = by, maxProducts = cfg,
      startedAt = started, completedAt = None, durationMs = None, logs = [],
      results = \<lparr>productsDiscovered = 0, productsValidated = 0, productsRejected = 0,
                 productsListed = 0, productsAutoListed = 0, errors = []\<rparr>\<rparr>"

text \<open>What a trigger answers: the run was started, a conflict (HTTP 409) with the active
  run's id, a refused secret (401), a server error (500), or a skipped cron tick.\<close>

datatype response = Started string | Conflict string | Unauthorized | ServerError string | Skipped

text \<open>
  \<open>POST /api/pipeline/run\<close>. \<open>findErr\<close> and \<open>saveErr\<close> are the errors with which the
  lookup and the save throw, if they do; \<open>uuid\<close> is the value of \<open>uuidv4()\<close>.
\<close>

definition postRun ::
  "string option \<Rightarrow> string option \<Rightarrow> string \<Rightarrow> string \<Rightarrow> int \<Rightarrow> runStore \<Rightarrow> response \<times> runStore" where
  "postRun findErr saveErr uuid ty now rs =
     (case findErr of
        Some e \<Rightarrow> (ServerError e, rs)
      | None \<Rightarrow>
          (case findActive rs of
             Some active \<Rightarrow> (Conflict (runId active), rs)
           | None \<Rightarrow>
               (case saveErr of
                  Some e \<Rightarrow> (ServerError e, rs)
                | None \<Rightarrow> (Started uuid, rs @ [newRun uuid ty Running ''manual'' None (Some now)]))))"

text \<open>\<open>POST /api/webhooks/pipeline/trigger\<close>: the secret is checked first.\<close>

definition webhookTrigger ::
  "bool \<Rightarrow> string option \<Rightarrow> string option \<Rightarrow> string \<Rightarrow> string \<Rightarrow> nat option \<Rightarrow> int \<Rightarrow> runStore
     \<Rightarrow> response \<times> runStore" where
  "webhookTrigger wrongSecret findErr saveErr uuid ty mp now rs =
     (if wrongSecret then (Unauthorized, rs)
      else case findErr of
        Some e \<Rightarrow> (ServerError e, rs)
      | None \<Rightarrow>
          (case findActive rs of
             Some active \<Rightarrow> (Conflict (runId active), rs)
           | None \<Rightarrow>
               (case saveErr of
                  Some e \<Rightarrow> (ServerError e, rs)
                | None \<Rightarrow>
                    (Started uuid,
                     rs @ [newRun uuid ty Running ''webhook'' (Some (limitOr mp 50)) (Some now)]))))"

text \<open>The daily cron job: an active run makes it skip; otherwise it creates a queued run.\<close>

definition cronTrigger ::
  "string option \<Rightarrow> string option \<Rightarrow> string \<Rightarrow> runStore \<Rightarrow> response \<times> runStore" where
  "cronTrigger findErr saveErr uuid rs =
     (case findErr of
        Some e \<Rightarrow> (ServerError e, rs)
      | None \<Rightarrow>
          (case findActive rs of
             Some active \<Rightarrow> (Skipped, rs)
           | None \<Rightarrow>
               (case saveErr of
                  Some e \<Rightarrow> (ServerError e, rs)
                | None \<Rightarrow> (Started uuid, rs @ [newRun uuid ''full'' Queued ''cron'' None None]))))"

text \<open>
  The \<open>run_pipeline\<close> action of the OpenClaw command executor (\<open>executeAction\<close>): it
  creates and saves a running run without looking for an active one. (Its delayed call of
  \<open>executePipeline\<close> comes later and is not part of the answer.)
\<close>

definition runPipelineAction ::
  "string option \<Rightarrow> string \<Rightarrow> string \<Rightarrow> int \<Rightarrow> runStore \<Rightarrow> response \<times> runStore" where
  "runPipelineAction saveErr uuid ty now rs =
     (case saveErr of
        Some e \<Rightarrow> (ServerError e, rs)
      | None \<Rightarrow> (Started uuid, rs @ [newRun uuid ty Running ''openclaw'' None (Some now)]))"

text \<open>\<open>run.save()\<close> from \<open>executePipeline\<close>: the stored document \<open>i\<close> takes the in-memory
  run's status.\<close>

definition persistStatus :: "nat \<Rightarrow> runStatus \<Rightarrow> runStore \<Rightarrow> runStore" where
  "persistStatus i st rs = rs[i := (rs ! i)\<lparr>r_status := st\<rparr>]"

subsection \<open>The guarded triggers keep at most one run active\<close>

lemma findActive_None: "findActive rs = None \<Longrightarrow> activeRuns rs = []"
  unfolding findActive_def activeRuns_def
  by (induction rs) (auto split: if_splits)

lemma findActive_Some: "findActive rs = Some a \<Longrightarrow> a \<in> set (activeRuns rs)"
  unfolding findActive_def activeRuns_def
  by (induction rs) (auto split: if_splits)

lemma activeRuns_Nil_findActive: "activeRuns rs = [] \<Longrightarrow> findActive rs = None"
  unfolding findActive_def activeRuns_def
  by (induction rs) (auto split: if_splits)

lemma isActiveRun_newRun:
  "isActiveRun (newRun uuid ty st by cfg started) = (st = Queued \<or> st = Running)"
  by (simp add: isActiveRun_def newRun_def)

lemma postRun_keeps_singleton:
  "length (activeRuns rs) \<le> 1 \<Longrightarrow> length (activeRuns (snd (postRun fe se uuid ty now rs))) \<le> 1"
  by (auto simp: postRun_def activeRuns_def isActiveRun_newRun
      dest: findActive_None [unfolded activeRuns_def]
      split: option.splits)

lemma webhookTrigger_keeps_singleton:
  "length (activeRuns rs) \<le> 1
     \<Longrightarrow> length (activeRuns (snd (webhookTrigger ws fe se uuid ty mp now rs))) \<le> 1"
  by (auto simp: webhookTrigger_def activeRuns_def isActiveRun_newRun
      dest: findActive_None [unfolded activeRuns_def]
      split: option.splits)

lemma cronTrigger_keeps_singleton:
  "length (activeRuns rs) \<le> 1 \<Longrightarrow> length (activeRuns (snd (cronTrigger fe se uuid rs))) \<le> 1"
  by (auto simp: cronTrigger_def activeRuns_def isActiveRun_newRun
      dest: findActive_None [unfolded activeRuns_def]
      split: option.splits)

lemma postRun_conflict:
  "findActive rs = Some a \<Longrightarrow> postRun None se uuid ty now rs = (Conflict (runId a), rs)"
  by (simp add: postRun_def)

lemma webhookTrigger_conflict:
  "findActive rs = Some a
     \<Longrightarrow> webhookTrigger False None se uuid ty mp now rs = (Conflict (runId a), rs)"
  by (simp add: webhookTrigger_def)

lemma filter_update_le:
  "i < length xs \<Longrightarrow> (P y \<Longrightarrow> P (xs ! i))
     \<Longrightarrow> length (filter P (xs[i := y])) \<le> length (filter P xs)"
proof (induction xs arbitrary: i)
  case Nil
  then show ?case by simp
next
  case (Cons x xs)
  show ?case
  proof (cases i)
    case 0
    with Cons.prems show ?thesis by auto
  next
    case (Suc j)
    with Cons.prems have "length (filter P (xs[j := y])) \<le> length (filter P xs)"
      using Cons.IH [of j] by simp
    with Suc show ?thesis by simp
  qed
qed

text \<open>A save from \<open>executePipeline\<close> writes a terminal status, or \<open>running\<close> to the run it
  was started for, which is still active; neither adds an active run.\<close>

lemma persistStatus_keeps_singleton:
  assumes "length (activeRuns rs) \<le> 1" and "i < length rs"
    and "st = Completed \<or> st = Failed \<or> isActiveRun (rs ! i)"
  shows "length (activeRuns (persistStatus i st rs)) \<le> 1"
proof -
  have "isActiveRun ((rs ! i)\<lparr>r_status := st\<rparr>) \<Longrightarrow> isActiveRun (rs ! i)"
    using assms(3) by (auto simp: isActiveRun_def)
  then have "length (filter isActiveRun (rs[i := (rs ! i)\<lparr>r_status := st\<rparr>]))
      \<le> length (filter isActiveRun rs)"
    using filter_update_le [OF assms(2)] by blast
  with assms(1) show ?thesis unfolding activeRuns_def persistStatus_def by simp
qed

text \<open>
  C1. The manual route starts a run; the \<open>run_pipeline\<close> action, called while that run is
  active, answers "started" as well and stores a second running run, so two runs are
  active at once. A second manual request in the same state is refused with a conflict
  naming the active run and stores nothing.
\<close>

theorem runPipelineAction_starts_second_active_run:
  "(let (a1, rs1) = postRun None None ''run-a'' ''full'' 1700000000000 [];
        (a2, rs2) = runPipelineAction None ''run-b'' ''full'' 1700000005000 rs1
    in a1 = Started ''run-a'' \<and> map runId (activeRuns rs1) = [''run-a'']
       \<and> postRun None None ''run-c'' ''full'' 1700000005000 rs1 = (Conflict ''run-a'', rs1)
       \<and> a2 = Started ''run-b''
       \<and> map runId (activeRuns rs2) = [''run-a'', ''run-b'']
       \<and> map r_status (activeRuns rs2) = [Running, Running]
       \<and> length rs2 = length rs1 + 1)"
  by (simp add: postRun_def runPipelineAction_def findActive_def activeRuns_def isActiveRun_def
      newRun_def)

end
